theory Spec2Isabelle
  imports Complex_Main
begin

section \<open>JavaScript values as the validation code sees them\<close>

text \<open>
  The validation module (\<^verbatim>\<open>lib/validation.ts\<close>) receives rows typed \<^verbatim>\<open>any\<close>: the cells are
  whatever the spreadsheet reader or the sample data put there (strings, numbers, booleans,
  arrays, objects, or nothing). The model keeps that dynamic typing as a datatype.

  Numbers are IEEE 754 doubles in the source. Here a finite double is the rational it
  stands for, next to the three special values; every operation that produces a number
  (arithmetic, \<^verbatim>\<open>Number\<close> of a string, a number in a JSON text) rounds its exact result to
  the nearest double, ties to the even mantissa, and overflows to an infinity, as the source
  does. There is one zero: the code never tells \<open>-0\<close> from \<open>0\<close> (both are falsy, compare
  and print alike, and are the same \<^verbatim>\<open>Map\<close> key).

  Strings are lists of 8-bit characters, read as code units \<open>0..255\<close> (Latin-1).
\<close>

datatype jsnum = Finite rat | NaN | PosInf | NegInf

datatype jsval =
    VUndefined
  | VNull
  | VBool bool
  | VNum jsnum
  | VStr string
  | VArr "jsval list"
  | VObj "(string \<times> jsval) list"

type_synonym row = "(string \<times> jsval) list"

text \<open>Property read \<^verbatim>\<open>row[k]\<close>: an absent key reads as \<^verbatim>\<open>undefined\<close>.\<close>

definition get_prop :: "row \<Rightarrow> string \<Rightarrow> jsval" where
  "get_prop r k = (case map_of r k of Some v \<Rightarrow> v | None \<Rightarrow> VUndefined)"

text \<open>Property write \<^verbatim>\<open>row[k] = v\<close>: replaces the value of an existing key, else adds the key.\<close>

fun set_prop :: "row \<Rightarrow> string \<Rightarrow> jsval \<Rightarrow> row" where
  "set_prop [] k v = [(k, v)]"
| "set_prop ((k', v') # r) k v = (if k' = k then (k, v) # r else (k', v') # set_prop r k v)"

text \<open>\<^verbatim>\<open>Object.keys(row)\<close>, used only through \<^verbatim>\<open>includes\<close>.\<close>

definition object_keys :: "row \<Rightarrow> string list" where
  "object_keys r = map fst r"

subsection \<open>Rounding to a double\<close>

text \<open>The number of binary digits of a positive integer, \<open>0\<close> for the others.\<close>

function bit_length :: "int \<Rightarrow> int" where
  "bit_length n = (if n \<le> 0 then 0 else 1 + bit_length (n div 2))"
  by pat_completeness auto

termination
  by (relation "measure nat") auto

declare bit_length.simps [simp del]

text \<open>\<open>m \<times> 2^e\<close> as a rational.\<close>

definition scale2 :: "rat \<Rightarrow> int \<Rightarrow> rat" where
  "scale2 m e = (if 0 \<le> e then m * 2 ^ nat e else m / 2 ^ nat (- e))"

text \<open>For a positive \<open>x\<close>, the exponent \<open>e\<close> with \<open>2^e \<le> x < 2^(e+1)\<close>.\<close>

definition binary_exponent :: "rat \<Rightarrow> int" where
  "binary_exponent x =
     (if 1 \<le> x then bit_length \<lfloor>x\<rfloor> - 1 else - bit_length (\<lceil>1 / x\<rceil> - 1))"

text \<open>The nearest integer, the even one of two that are equally near.\<close>

definition round_half_even :: "rat \<Rightarrow> int" where
  "round_half_even y =
     (let f = \<lfloor>y\<rfloor>; d = y - of_int f
      in if d < 1 / 2 then f else if 1 / 2 < d then f + 1 else if even f then f else f + 1)"

text \<open>
  The double nearest to a rational (binary64, round to nearest, ties to even): a mantissa
  of 53 bits at the exponent of the number, which is at least \<open>-1022\<close> (below that the
  doubles are the multiples of \<open>2^-1074\<close>); a result of \<open>2^1024\<close> or more is an infinity.
\<close>

definition round_double :: "rat \<Rightarrow> jsnum" where
  "round_double x =
     (if x = 0 then Finite 0
      else
        let e = max (binary_exponent \<bar>x\<bar>) (- 1022);
            m = round_half_even (scale2 \<bar>x\<bar> (52 - e))
        in if 1024 \<le> e \<or> (e = 1023 \<and> m = 2 ^ 53) then (if x < 0 then NegInf else PosInf)
           else Finite (if x < 0 then - scale2 (of_int m) (e - 52)
                        else scale2 (of_int m) (e - 52)))"

subsection \<open>Arithmetic and comparison of numbers\<close>

fun num_neg :: "jsnum \<Rightarrow> jsnum" where
  "num_neg (Finite a) = Finite (- a)"
| "num_neg NaN = NaN"
| "num_neg PosInf = NegInf"
| "num_neg NegInf = PosInf"

fun num_add :: "jsnum \<Rightarrow> jsnum \<Rightarrow> jsnum" where
  "num_add (Finite a) (Finite b) = round_double (a + b)"
| "num_add NaN _ = NaN"
| "num_add _ NaN = NaN"
| "num_add PosInf NegInf = NaN"
| "num_add NegInf PosInf = NaN"
| "num_add PosInf _ = PosInf"
| "num_add _ PosInf = PosInf"
| "num_add NegInf _ = NegInf"
| "num_add _ NegInf = NegInf"

definition num_sub :: "jsnum \<Rightarrow> jsnum \<Rightarrow> jsnum" where
  "num_sub a b = num_add a (num_neg b)"

text \<open>The sign of a number that is not NaN: \<open>-1\<close>, \<open>0\<close> or \<open>1\<close>.\<close>

fun num_sgn :: "jsnum \<Rightarrow> int" where
  "num_sgn (Finite a) = (if a < 0 then - 1 else if a = 0 then 0 else 1)"
| "num_sgn PosInf = 1"
| "num_sgn NegInf = - 1"
| "num_sgn NaN = 0"

fun num_mul :: "jsnum \<Rightarrow> jsnum \<Rightarrow> jsnum" where
  "num_mul (Finite a) (Finite b) = round_double (a * b)"
| "num_mul NaN _ = NaN"
| "num_mul _ NaN = NaN"
| "num_mul a b =
     (if num_sgn a * num_sgn b = 0 then NaN
      else if num_sgn a * num_sgn b < 0 then NegInf else PosInf)"

text \<open>\<^verbatim>\<open>a < b\<close> on numbers: false as soon as one side is NaN.\<close>

fun num_less :: "jsnum \<Rightarrow> jsnum \<Rightarrow> bool" where
  "num_less (Finite a) (Finite b) = (a < b)"
| "num_less NaN _ = False"
| "num_less _ NaN = False"
| "num_less PosInf _ = False"
| "num_less _ PosInf = True"
| "num_less _ NegInf = False"
| "num_less NegInf _ = True"

text \<open>\<^verbatim>\<open>a > b\<close> is \<^verbatim>\<open>b < a\<close>.\<close>

definition num_greater :: "jsnum \<Rightarrow> jsnum \<Rightarrow> bool" where
  "num_greater a b = num_less b a"

subsection \<open>Strings\<close>

text \<open>
  White space as \<^verbatim>\<open>String.prototype.trim\<close>, the regular expression class \<^verbatim>\<open>\s\<close> and
  \<^verbatim>\<open>Number\<close> understand it, within code units \<open>0..255\<close>: tab, line feed, vertical tab, form
  feed, carriage return, space and no-break space.
\<close>

definition js_ws :: "char \<Rightarrow> bool" where
  "js_ws c = (c \<in> set [CHR 0x09, CHR 0x0A, CHR 0x0B, CHR 0x0C, CHR 0x0D, CHR '' '', CHR 0xA0])"

definition trim :: "string \<Rightarrow> string" where
  "trim s = rev (dropWhile js_ws (rev (dropWhile js_ws s)))"

text \<open>\<^verbatim>\<open>s.split(c)\<close> for a one-character separator: never the empty list.\<close>

fun split_on :: "char \<Rightarrow> string \<Rightarrow> string list" where
  "split_on c [] = [[]]"
| "split_on c (x # xs) =
     (if x = c then [] # split_on c xs
      else (case split_on c xs of p # ps \<Rightarrow> (x # p) # ps | [] \<Rightarrow> [[x]]))"

definition starts_with :: "string \<Rightarrow> string \<Rightarrow> bool" where
  "starts_with p s = (take (length p) s = p)"

text \<open>\<^verbatim>\<open>toLowerCase\<close> on code units \<open>0..255\<close>: A-Z and the Latin-1 capitals
  \<open>0xC0..0xDE\<close> (the multiplication sign \<open>0xD7\<close> apart) move up by \<open>0x20\<close>.\<close>

definition to_lower :: "char \<Rightarrow> char" where
  "to_lower c =
     (let n = (of_char c :: nat)
      in if (65 \<le> n \<and> n \<le> 90) \<or> (192 \<le> n \<and> n \<le> 222 \<and> n \<noteq> 215)
         then char_of (n + 32) else c)"

definition toLowerCase :: "string \<Rightarrow> string" where
  "toLowerCase s = map to_lower s"

text \<open>\<^verbatim>\<open>s.replace(/\s+/g, ' ')\<close>: every maximal run of white space becomes one space.\<close>

fun collapse_run :: "bool \<Rightarrow> string \<Rightarrow> string" where
  "collapse_run in_run [] = []"
| "collapse_run in_run (c # cs) =
     (if js_ws c then (if in_run then collapse_run True cs else CHR '' '' # collapse_run True cs)
      else c # collapse_run False cs)"

definition collapse_ws :: "string \<Rightarrow> string" where
  "collapse_ws s = collapse_run False s"

fun intercalate :: "string \<Rightarrow> string list \<Rightarrow> string" where
  "intercalate sep [] = []"
| "intercalate sep [x] = x"
| "intercalate sep (x # y # ys) = x @ sep @ intercalate sep (y # ys)"

subsection \<open>Decimal digits\<close>

definition is_digit :: "char \<Rightarrow> bool" where
  "is_digit c = (48 \<le> (of_char c :: nat) \<and> (of_char c :: nat) \<le> 57)"

definition digit_val :: "char \<Rightarrow> nat" where
  "digit_val c = of_char c - 48"

text \<open>The value of a digit string in a base, most significant digit first.\<close>

definition digits_val :: "'a::semiring_0 \<Rightarrow> 'a list \<Rightarrow> 'a" where
  "digits_val base ds = foldl (\<lambda>acc d. acc * base + d) 0 ds"

definition dec_val :: "string \<Rightarrow> int" where
  "dec_val s = digits_val 10 (map (\<lambda>c. int (digit_val c)) s)"

text \<open>\<open>m \<times> 10^e\<close> as a rational.\<close>

definition scale10 :: "rat \<Rightarrow> int \<Rightarrow> rat" where
  "scale10 m e = (if 0 \<le> e then m * 10 ^ nat e else m / 10 ^ nat (- e))"

subsection \<open>\<^verbatim>\<open>Number(string)\<close>\<close>

text \<open>
  The string grammar of \<^verbatim>\<open>Number\<close>: white space is trimmed; the empty string is \<open>0\<close>; then a
  hexadecimal, octal or binary literal (no sign), or an optionally signed \<^verbatim>\<open>Infinity\<close> or
  decimal literal (digits, optional fraction, optional exponent; one of the integer and
  fraction parts may be empty). Anything else is NaN. The value of a literal is rounded to
  a double.
\<close>

definition is_hex_digit :: "char \<Rightarrow> bool" where
  "is_hex_digit c =
     (is_digit c \<or> (65 \<le> (of_char c :: nat) \<and> (of_char c :: nat) \<le> 70)
                \<or> (97 \<le> (of_char c :: nat) \<and> (of_char c :: nat) \<le> 102))"

definition hex_val :: "char \<Rightarrow> nat" where
  "hex_val c =
     (let n = (of_char c :: nat)
      in if n \<le> 57 then n - 48 else if n \<le> 70 then n - 55 else n - 87)"

definition radix_literal :: "nat \<Rightarrow> string \<Rightarrow> int option" where
  "radix_literal base ds =
     (if ds \<noteq> [] \<and> list_all (\<lambda>c. is_hex_digit c \<and> hex_val c < base) ds
      then Some (digits_val (int base) (map (\<lambda>c. int (hex_val c)) ds)) else None)"

fun nondecimal_literal :: "string \<Rightarrow> int option" where
  "nondecimal_literal (z # x # ds) =
     (if z \<noteq> CHR ''0'' then None
      else if x = CHR ''x'' \<or> x = CHR ''X'' then radix_literal 16 ds
      else if x = CHR ''o'' \<or> x = CHR ''O'' then radix_literal 8 ds
      else if x = CHR ''b'' \<or> x = CHR ''B'' then radix_literal 2 ds
      else None)"
| "nondecimal_literal _ = None"

definition all_digits :: "string \<Rightarrow> bool" where
  "all_digits d = (d \<noteq> [] \<and> list_all is_digit d)"

text \<open>A signed integer as it follows the exponent letter.\<close>

definition signed_digits :: "string \<Rightarrow> int option" where
  "signed_digits r =
     (case r of
        [] \<Rightarrow> None
      | c # d \<Rightarrow>
          if c = CHR ''+'' then (if all_digits d then Some (dec_val d) else None)
          else if c = CHR ''-'' then (if all_digits d then Some (- dec_val d) else None)
          else (if all_digits r then Some (dec_val r) else None))"

text \<open>What follows the mantissa: nothing, or an exponent part up to the end of the string.\<close>

definition exponent_part :: "string \<Rightarrow> int option" where
  "exponent_part r =
     (case r of
        [] \<Rightarrow> Some 0
      | c # r' \<Rightarrow> if c = CHR ''e'' \<or> c = CHR ''E'' then signed_digits r' else None)"

definition unsigned_decimal :: "string \<Rightarrow> jsnum" where
  "unsigned_decimal r =
     (if r = ''Infinity'' then PosInf
      else
        let ip = takeWhile is_digit r;
            r1 = dropWhile is_digit r;
            fp = (case r1 of [] \<Rightarrow> [] | c # r' \<Rightarrow> if c = CHR ''.'' then takeWhile is_digit r' else []);
            r2 = (case r1 of [] \<Rightarrow> [] | c # r' \<Rightarrow> if c = CHR ''.'' then dropWhile is_digit r' else r1)
        in if ip = [] \<and> fp = [] then NaN
           else (case exponent_part r2 of
                   None \<Rightarrow> NaN
                 | Some e \<Rightarrow>
                     round_double (scale10 (of_int (dec_val (ip @ fp))) (e - int (length fp)))))"

definition str_to_num :: "string \<Rightarrow> jsnum" where
  "str_to_num s =
     (let t = trim s
      in if t = [] then Finite 0
         else (case nondecimal_literal t of
                 Some n \<Rightarrow> round_double (of_int n)
               | None \<Rightarrow>
                   (case t of
                      [] \<Rightarrow> Finite 0
                    | c # r \<Rightarrow>
                        if c = CHR ''+'' then unsigned_decimal r
                        else if c = CHR ''-'' then num_neg (unsigned_decimal r)
                        else unsigned_decimal t)))"

subsection \<open>\<^verbatim>\<open>String(number)\<close>\<close>

text \<open>The decimal digits of a natural number (a length) and of a non-negative integer
  (the digits of a number).\<close>

fun nat_to_dec :: "nat \<Rightarrow> string" where
  "nat_to_dec n =
     (if n < 10 then [char_of (48 + n)]
      else nat_to_dec (n div 10) @ [char_of (48 + n mod 10)])"

function int_to_dec :: "int \<Rightarrow> string" where
  "int_to_dec n =
     (if n < 10 then [char_of (48 + n)]
      else int_to_dec (n div 10) @ [char_of (48 + n mod 10)])"
  by pat_completeness auto

termination
  by (relation "measure nat") auto

declare int_to_dec.simps [simp del]

text \<open>The number of decimal digits of a positive integer, \<open>0\<close> for the others.\<close>

function dec_length :: "int \<Rightarrow> int" where
  "dec_length n = (if n \<le> 0 then 0 else 1 + dec_length (n div 10))"
  by pat_completeness auto

termination
  by (relation "measure nat") auto

declare dec_length.simps [simp del]

text \<open>For a positive \<open>x\<close>, the \<open>n\<close> with \<open>10^(n-1) \<le> x < 10^n\<close>.\<close>

definition decimal_exponent :: "rat \<Rightarrow> int" where
  "decimal_exponent x =
     (if 1 \<le> x then dec_length \<lfloor>x\<rfloor> else 1 - dec_length (\<lceil>1 / x\<rceil> - 1))"

text \<open>
  \<^verbatim>\<open>Number.prototype.toString\<close> prints the shortest decimal that reads back as the same
  double, and of several that short the one nearest to the number (the even one of two
  equally near). The candidates with \<open>k\<close> digits are the two multiples of \<open>10^(n-k)\<close>
  around \<open>x\<close>, the preferred one first; those that read back as \<open>x\<close> remain.
\<close>

definition digit_candidates :: "rat \<Rightarrow> int \<Rightarrow> int \<Rightarrow> int list" where
  "digit_candidates x n k =
     (let sc = scale10 x (k - n);
          lo = \<lfloor>sc\<rfloor>;
          hi = lo + 1;
          below = sc - of_int lo;
          above = of_int hi - sc;
          preferred = (if below < above \<or> (below = above \<and> even lo) then [lo, hi] else [hi, lo])
      in filter (\<lambda>s. round_double (scale10 (of_int s) (n - k)) = Finite x) preferred)"

text \<open>
  The digits \<open>s\<close> and their number \<open>k\<close>, searched from \<open>k\<close> on over \<open>fuel\<close> lengths.
  Seventeen digits identify every double, so from \<open>k = 1\<close> with fuel 17 the search
  succeeds on a double; a rational that is no double is no JavaScript number.
\<close>

fun shortest_digits :: "rat \<Rightarrow> int \<Rightarrow> int \<Rightarrow> nat \<Rightarrow> int \<times> int" where
  "shortest_digits x n k 0 = (\<lfloor>scale10 x (k - n)\<rfloor>, k)"
| "shortest_digits x n k (Suc fuel) =
     (case digit_candidates x n k of
        s # _ \<Rightarrow> (s, k)
      | [] \<Rightarrow> shortest_digits x n (k + 1) fuel)"

text \<open>
  \<^verbatim>\<open>Number.prototype.toString\<close> for a positive finite number: with \<open>k\<close> significant digits
  \<open>ds\<close> and the decimal point after \<open>n\<close> digits, plain notation for \<open>-6 < n \<le> 21\<close>,
  exponent notation otherwise. (When the digits found are those of \<open>10^k\<close>, the number
  prints as \<open>1\<close> with the point one place further right.)
\<close>

definition pos_to_string :: "rat \<Rightarrow> string" where
  "pos_to_string q =
     (let n0 = decimal_exponent q;
          (s, k0) = shortest_digits q n0 1 17;
          ds0 = int_to_dec s;
          ds = rev (dropWhile (\<lambda>c. c = CHR ''0'') (rev ds0));
          k = int (length ds);
          n = n0 + (int (length ds0) - k0)
      in if k \<le> n \<and> n \<le> 21 then ds @ replicate (nat (n - k)) CHR ''0''
         else if 0 < n \<and> n \<le> 21 then take (nat n) ds @ ''.'' @ drop (nat n) ds
         else if - 6 < n \<and> n \<le> 0 then ''0.'' @ replicate (nat (- n)) CHR ''0'' @ ds
         else (let e = n - 1;
                   ex = (if e < 0 then ''-'' else ''+'') @ nat_to_dec (nat \<bar>e\<bar>)
               in if k = 1 then ds @ ''e'' @ ex
                  else take 1 ds @ ''.'' @ drop 1 ds @ ''e'' @ ex))"

fun num_to_string :: "jsnum \<Rightarrow> string" where
  "num_to_string NaN = ''NaN''"
| "num_to_string PosInf = ''Infinity''"
| "num_to_string NegInf = ''-Infinity''"
| "num_to_string (Finite q) =
     (if q = 0 then ''0''
      else if q < 0 then ''-'' @ pos_to_string (- q)
      else pos_to_string q)"

subsection \<open>Coercions of arbitrary values\<close>

text \<open>
  \<^verbatim>\<open>String(v)\<close>. An array joins its elements with commas, \<^verbatim>\<open>null\<close> and \<^verbatim>\<open>undefined\<close>
  elements as empty strings. A plain object prints as \<^verbatim>\<open>[object Object]\<close>; objects are
  taken without a member of their own called \<^verbatim>\<open>toString\<close> (with one, the conversion
  throws in the source).
\<close>

fun js_string :: "jsval \<Rightarrow> string" where
  "js_string VUndefined = ''undefined''"
| "js_string VNull = ''null''"
| "js_string (VBool b) = (if b then ''true'' else ''false'')"
| "js_string (VNum n) = num_to_string n"
| "js_string (VStr s) = s"
| "js_string (VArr xs) =
     intercalate '','' (map (\<lambda>x. if x = VUndefined \<or> x = VNull then [] else js_string x) xs)"
| "js_string (VObj kvs) = ''[object Object]''"

text \<open>\<^verbatim>\<open>Number(v)\<close>: arrays and objects go through their string.\<close>

fun to_number :: "jsval \<Rightarrow> jsnum" where
  "to_number VUndefined = NaN"
| "to_number VNull = Finite 0"
| "to_number (VBool b) = (if b then Finite 1 else Finite 0)"
| "to_number (VNum n) = n"
| "to_number (VStr s) = str_to_num s"
| "to_number (VArr xs) = str_to_num (js_string (VArr xs))"
| "to_number (VObj kvs) = str_to_num (js_string (VObj kvs))"

text \<open>\<^verbatim>\<open>isNaN(v)\<close> converts with \<^verbatim>\<open>Number\<close> first.\<close>

definition isNaN :: "jsval \<Rightarrow> bool" where
  "isNaN v = (to_number v = NaN)"

text \<open>Truthiness, as \<^verbatim>\<open>if (v)\<close> and \<^verbatim>\<open>v && ...\<close> test it.\<close>

fun truthy :: "jsval \<Rightarrow> bool" where
  "truthy VUndefined = False"
| "truthy VNull = False"
| "truthy (VBool b) = b"
| "truthy (VNum n) = (n \<noteq> NaN \<and> n \<noteq> Finite 0)"
| "truthy (VStr s) = (s \<noteq> [])"
| "truthy (VArr xs) = True"
| "truthy (VObj kvs) = True"

section \<open>\<^verbatim>\<open>JSON.parse\<close> and \<^verbatim>\<open>JSON.stringify\<close>\<close>

text \<open>
  The JSON grammar, as \<^verbatim>\<open>JSON.parse\<close> accepts it: white space is space, tab, line feed and
  carriage return; a value is an object, an array, a string, a number or one of the three
  literals; nothing but white space may follow the value. A parse error (\<^verbatim>\<open>SyntaxError\<close>
  in the source) is \<open>None\<close>.
\<close>

definition json_ws :: "char \<Rightarrow> bool" where
  "json_ws c = (c \<in> set [CHR '' '', CHR 0x09, CHR 0x0A, CHR 0x0D])"

definition skip_ws :: "string \<Rightarrow> string" where
  "skip_ws s = dropWhile json_ws s"

text \<open>
  The character of a \<^verbatim>\<open>\uXXXX\<close> escape. A code unit above \<open>0xFF\<close> has no place in the
  8-bit strings of this model and reads as a question mark; whether the text parses does
  not depend on it.
\<close>

definition unit_char :: "nat \<Rightarrow> char" where
  "unit_char n = (if n < 256 then char_of n else CHR ''?'')"

definition simple_escape :: "char \<Rightarrow> char option" where
  "simple_escape e =
     (if e = CHR 0x22 then Some (CHR 0x22)
      else if e = CHR 0x5C then Some (CHR 0x5C)
      else if e = CHR ''/'' then Some (CHR ''/'')
      else if e = CHR ''b'' then Some (CHR 0x08)
      else if e = CHR ''f'' then Some (CHR 0x0C)
      else if e = CHR ''n'' then Some (CHR 0x0A)
      else if e = CHR ''r'' then Some (CHR 0x0D)
      else if e = CHR ''t'' then Some (CHR 0x09)
      else None)"

text \<open>The characters of a string after its opening quote, up to the closing quote.\<close>

fun json_string_body :: "string \<Rightarrow> (string \<times> string) option" where
  "json_string_body [] = None"
| "json_string_body (c # cs) =
     (if c = CHR 0x22 then Some ([], cs)
      else if c = CHR 0x5C then
        (case cs of
           [] \<Rightarrow> None
         | e # cs' \<Rightarrow>
             if e = CHR ''u'' then
               (case cs' of
                  h1 # h2 # h3 # h4 # cs'' \<Rightarrow>
                    if list_all is_hex_digit [h1, h2, h3, h4] then
                      (case json_string_body cs'' of
                         None \<Rightarrow> None
                       | Some (t, r) \<Rightarrow>
                           Some (unit_char (digits_val 16 (map hex_val [h1, h2, h3, h4])) # t, r))
                    else None
                | _ \<Rightarrow> None)
             else
               (case simple_escape e of
                  None \<Rightarrow> None
                | Some ch \<Rightarrow>
                    (case json_string_body cs' of
                       None \<Rightarrow> None
                     | Some (t, r) \<Rightarrow> Some (ch # t, r))))
      else if (of_char c :: nat) < 32 then None
      else (case json_string_body cs of
              None \<Rightarrow> None
            | Some (t, r) \<Rightarrow> Some (c # t, r)))"

text \<open>
  A number: optional minus, an integer part without leading zero, an optional fraction with
  at least one digit, an optional exponent with at least one digit; its value is rounded to
  a double.
\<close>

definition json_exponent :: "string \<Rightarrow> (int \<times> string) option" where
  "json_exponent r =
     (case r of
        [] \<Rightarrow> Some (0, r)
      | c # r' \<Rightarrow>
          if c = CHR ''e'' \<or> c = CHR ''E'' then
            (let sgn = (case r' of [] \<Rightarrow> CHR ''+'' | x # _ \<Rightarrow> if x = CHR ''-'' then x else CHR ''+'');
                 r'' = (case r' of [] \<Rightarrow> [] | x # y \<Rightarrow> if x = CHR ''-'' \<or> x = CHR ''+'' then y else r');
                 d = takeWhile is_digit r''
             in if d = [] then None
                else Some ((if sgn = CHR ''-'' then - dec_val d else dec_val d),
                           dropWhile is_digit r''))
          else Some (0, r))"

definition json_number :: "string \<Rightarrow> (jsval \<times> string) option" where
  "json_number s =
     (let neg = (case s of [] \<Rightarrow> False | c # _ \<Rightarrow> c = CHR ''-'');
          s1 = (if neg then tl s else s);
          ip = takeWhile is_digit s1;
          r1 = dropWhile is_digit s1;
          has_frac = (case r1 of [] \<Rightarrow> False | c # _ \<Rightarrow> c = CHR ''.'');
          fp = (if has_frac then takeWhile is_digit (tl r1) else []);
          r2 = (if has_frac then dropWhile is_digit (tl r1) else r1)
      in if ip = [] \<or> (1 < length ip \<and> hd ip = CHR ''0'') \<or> (has_frac \<and> fp = []) then None
         else (case json_exponent r2 of
                 None \<Rightarrow> None
               | Some (e, r3) \<Rightarrow>
                   (let q = round_double (scale10 (of_int (dec_val (ip @ fp))) (e - int (length fp)))
                    in Some (VNum (if neg then num_neg q else q), r3))))"

text \<open>
  Values, array elements and object members. \<open>json_elements\<close> reads from the first element
  of a non-empty array to its closing bracket, \<open>json_members\<close> from the first key of a
  non-empty object to its closing brace. A repeated key keeps its first position and its
  last value. The tests \<open>length r < length s\<close> always succeed (a value consumes input, see
  \<open>json_value_shorter\<close>); they make the recursion visibly well-founded.
\<close>

definition object_of :: "(string \<times> jsval) list \<Rightarrow> (string \<times> jsval) list" where
  "object_of kvs = foldl (\<lambda>ob kv. set_prop ob (fst kv) (snd kv)) [] kvs"

function json_value :: "string \<Rightarrow> (jsval \<times> string) option"
  and json_elements :: "string \<Rightarrow> (jsval list \<times> string) option"
  and json_members :: "string \<Rightarrow> ((string \<times> jsval) list \<times> string) option"
where
  "json_value s =
     (case skip_ws s of
        [] \<Rightarrow> None
      | c # cs \<Rightarrow>
          if c = CHR ''['' then
            (case skip_ws cs of
               [] \<Rightarrow> None
             | d # ds \<Rightarrow>
                 if d = CHR '']'' then Some (VArr [], ds)
                 else (case json_elements cs of
                         None \<Rightarrow> None
                       | Some (vs, r) \<Rightarrow> Some (VArr vs, r)))
          else if c = CHR ''{'' then
            (case skip_ws cs of
               [] \<Rightarrow> None
             | d # ds \<Rightarrow>
                 if d = CHR ''}'' then Some (VObj [], ds)
                 else (case json_members cs of
                         None \<Rightarrow> None
                       | Some (kvs, r) \<Rightarrow> Some (VObj (object_of kvs), r)))
          else if c = CHR 0x22 then
            (case json_string_body cs of
               None \<Rightarrow> None
             | Some (t, r) \<Rightarrow> Some (VStr t, r))
          else if starts_with ''true'' (c # cs) then Some (VBool True, drop 4 (c # cs))
          else if starts_with ''false'' (c # cs) then Some (VBool False, drop 5 (c # cs))
          else if starts_with ''null'' (c # cs) then Some (VNull, drop 4 (c # cs))
          else json_number (c # cs))"
| "json_elements s =
     (case json_value s of
        None \<Rightarrow> None
      | Some (v, r) \<Rightarrow>
          if length r < length s then
            (case skip_ws r of
               [] \<Rightarrow> None
             | c # r' \<Rightarrow>
                 if c = CHR '','' then
                   (case json_elements r' of
                      None \<Rightarrow> None
                    | Some (vs, r'') \<Rightarrow> Some (v # vs, r''))
                 else if c = CHR '']'' then Some ([v], r')
                 else None)
          else None)"
| "json_members s =
     (case skip_ws s of
        [] \<Rightarrow> None
      | q # s1 \<Rightarrow>
          if q \<noteq> CHR 0x22 then None
          else
            (case json_string_body s1 of
               None \<Rightarrow> None
             | Some (k, s2) \<Rightarrow>
                 (case skip_ws s2 of
                    [] \<Rightarrow> None
                  | colon # s3 \<Rightarrow>
                      if colon \<noteq> CHR '':'' \<or> \<not> length s3 < length s then None
                      else
                        (case json_value s3 of
                           None \<Rightarrow> None
                         | Some (v, r) \<Rightarrow>
                             if length r < length s3 then
                               (case skip_ws r of
                                  [] \<Rightarrow> None
                                | c # r' \<Rightarrow>
                                    if c = CHR '','' then
                                      (case json_members r' of
                                         None \<Rightarrow> None
                                       | Some (kvs, r'') \<Rightarrow> Some ((k, v) # kvs, r''))
                                    else if c = CHR ''}'' then Some ([(k, v)], r')
                                    else None)
                             else None))))"
  by pat_completeness auto

termination
proof (relation "measure (\<lambda>x. case x of
                    Inl s \<Rightarrow> 2 * length s + 1
                  | Inr (Inl s) \<Rightarrow> 2 * length s + 2
                  | Inr (Inr s) \<Rightarrow> 2 * length s + 2)", goal_cases)
  case 1
  show ?case by simp
next
  case (2 s c cs d ds)
  then show ?case using length_dropWhile_le [of json_ws s] by (simp add: skip_ws_def)
next
  case (3 s c cs d ds)
  then show ?case using length_dropWhile_le [of json_ws s] by (simp add: skip_ws_def)
next
  case (4 s)
  show ?case by simp
next
  case (5 s x2 v r c r')
  then show ?case using length_dropWhile_le [of json_ws r] by (simp add: skip_ws_def)
next
  case (6 s q s1 x2 k s2 colon s3)
  then show ?case by simp
next
  case (7 s q s1 x2 k s2 colon s3 x2a v r c r')
  then show ?case using length_dropWhile_le [of json_ws r] by (simp add: skip_ws_def)
qed

declare json_value.simps [simp del] json_elements.simps [simp del] json_members.simps [simp del]

definition json_parse :: "string \<Rightarrow> jsval option" where
  "json_parse s =
     (case json_value s of
        None \<Rightarrow> None
      | Some (v, r) \<Rightarrow> if skip_ws r = [] then Some v else None)"

text \<open>
  \<^verbatim>\<open>JSON.stringify\<close> of a string: quotes around the characters, with the quote, the
  backslash and the control characters escaped.
\<close>

definition hex_digit_char :: "nat \<Rightarrow> char" where
  "hex_digit_char n = (if n < 10 then char_of (48 + n) else char_of (87 + n))"

definition json_escape :: "char \<Rightarrow> string" where
  "json_escape c =
     (if c = CHR 0x22 then [CHR 0x5C, CHR 0x22]
      else if c = CHR 0x5C then [CHR 0x5C, CHR 0x5C]
      else if c = CHR 0x08 then [CHR 0x5C, CHR ''b'']
      else if c = CHR 0x0C then [CHR 0x5C, CHR ''f'']
      else if c = CHR 0x0A then [CHR 0x5C, CHR ''n'']
      else if c = CHR 0x0D then [CHR 0x5C, CHR ''r'']
      else if c = CHR 0x09 then [CHR 0x5C, CHR ''t'']
      else if (of_char c :: nat) < 32 then
        [CHR 0x5C, CHR ''u'', CHR ''0'', CHR ''0'',
         hex_digit_char ((of_char c :: nat) div 16), hex_digit_char ((of_char c :: nat) mod 16)]
      else [c])"

definition json_quote :: "string \<Rightarrow> string" where
  "json_quote t = CHR 0x22 # concat (map json_escape t) @ [CHR 0x22]"

text \<open>\<^verbatim>\<open>JSON.stringify({ message: t })\<close>.\<close>

definition stringify_message :: "string \<Rightarrow> string" where
  "stringify_message t = ''{'' @ json_quote ''message'' @ '':'' @ json_quote t @ ''}''"

section \<open>The validation module\<close>

text \<open>
  \<^verbatim>\<open>ValidationError\<close> and \<^verbatim>\<open>ValidationResult\<close> of \<^verbatim>\<open>lib/validation.ts\<close>. The fields
  \<^verbatim>\<open>type\<close> and \<^verbatim>\<open>value\<close> are called \<open>etype\<close> and \<open>evalue\<close>; an error built without
  \<^verbatim>\<open>value\<close> has \<open>evalue = None\<close>. Every error of the module sets \<^verbatim>\<open>sheetName\<close>.
\<close>

record ValidationError =
  etype :: string
  message :: string
  rowIndex :: int
  column :: string
  sheetName :: string
  evalue :: "jsval option"

record ValidationResult =
  isValid :: bool
  errors :: "ValidationError list"

text \<open>The exceptions that escape: a \<^verbatim>\<open>TypeError\<close> from the validation module (a method
  or property read on a value that has none), and a \<^verbatim>\<open>RangeError\<close> from the phase
  normalizer of the page (an array length above \<open>2^32 - 1\<close>).\<close>

datatype exn = TypeError | RangeError

text \<open>
  \<^verbatim>\<open>data.forEach((row, index) => ...)\<close> where the body only pushes errors: the errors of
  the rows, in row order. With a body that may throw, the first exception ends the loop.
\<close>

definition for_each :: "(row \<Rightarrow> nat \<Rightarrow> 'e list) \<Rightarrow> row list \<Rightarrow> 'e list" where
  "for_each body data = concat (map (\<lambda>(index, row). body row index) (enumerate 0 data))"

fun collect :: "(exn + 'e list) list \<Rightarrow> exn + 'e list" where
  "collect [] = Inr []"
| "collect (Inl e # rest) = Inl e"
| "collect (Inr xs # rest) = (case collect rest of Inl e \<Rightarrow> Inl e | Inr ys \<Rightarrow> Inr (xs @ ys))"

definition for_each_exn :: "(row \<Rightarrow> nat \<Rightarrow> exn + 'e list) \<Rightarrow> row list \<Rightarrow> exn + 'e list" where
  "for_each_exn body data = collect (map (\<lambda>(index, row). body row index) (enumerate 0 data))"

subsection \<open>Sheet kinds and required columns\<close>

definition getBaseSheetName :: "string \<Rightarrow> string" where
  "getBaseSheetName sheet =
     (let cleanName = trim (collapse_ws (toLowerCase sheet))
      in if starts_with ''client'' cleanName then ''Clients''
         else if starts_with ''worker'' cleanName then ''Workers''
         else if starts_with ''task'' cleanName then ''Tasks''
         else sheet)"

text \<open>
  \<^verbatim>\<open>REQUIRED_COLUMNS[baseSheetName]\<close> is a property read on an object literal: one of the
  three lists, or \<^verbatim>\<open>undefined\<close>, or, for a name that \<^verbatim>\<open>Object.prototype\<close> defines, the
  inherited member (truthy, and without a \<^verbatim>\<open>filter\<close> method).
\<close>

datatype required_lookup = Columns "string list" | Inherited | NoEntry

definition object_prototype_names :: "string list" where
  "object_prototype_names =
     [''constructor'', ''__defineGetter__'', ''__defineSetter__'', ''hasOwnProperty'',
      ''__lookupGetter__'', ''__lookupSetter__'', ''isPrototypeOf'', ''propertyIsEnumerable'',
      ''toString'', ''valueOf'', ''__proto__'', ''toLocaleString'']"

definition REQUIRED_COLUMNS :: "string \<Rightarrow> required_lookup" where
  "REQUIRED_COLUMNS k =
     (if k = ''Clients'' then
        Columns [''ClientID'', ''ClientName'', ''PriorityLevel'', ''RequestedTaskIDs'',
                 ''GroupTag'', ''AttributesJSON'']
      else if k = ''Workers'' then
        Columns [''WorkerID'', ''WorkerName'', ''Skills'', ''AvailableSlots'',
                 ''MaxLoadPerPhase'', ''WorkerGroup'', ''QualificationLevel'']
      else if k = ''Tasks'' then
        Columns [''TaskID'', ''TaskName'', ''Category'', ''Duration'', ''RequiredSkills'',
                 ''PreferredPhases'', ''MaxConcurrent'']
      else if k \<in> set object_prototype_names then Inherited
      else NoEntry)"

definition missing_column_error :: "string \<Rightarrow> string \<Rightarrow> ValidationError" where
  "missing_column_error sheet col =
     \<lparr>etype = ''error'', message = ''Missing required column: '' @ col, rowIndex = - 1,
      column = col, sheetName = sheet, evalue = None\<rparr>"

definition validateRequiredColumns :: "string \<Rightarrow> row list \<Rightarrow> exn + ValidationError list" where
  "validateRequiredColumns sheet data =
     (case REQUIRED_COLUMNS (getBaseSheetName sheet) of
        NoEntry \<Rightarrow> Inr []
      | Inherited \<Rightarrow> (case data of [] \<Rightarrow> Inr [] | first # _ \<Rightarrow> Inl TypeError)
      | Columns required \<Rightarrow>
          (case data of
             [] \<Rightarrow> Inr []
           | first # _ \<Rightarrow>
               (let actualColumns = object_keys first;
                    missingColumns = filter (\<lambda>col. col \<notin> set actualColumns) required
                in Inr (map (missing_column_error sheet) missingColumns))))"

subsection \<open>Duplicate IDs\<close>

definition id_column :: "string \<Rightarrow> string option" where
  "id_column baseSheetName =
     (if baseSheetName = ''Clients'' then Some ''ClientID''
      else if baseSheetName = ''Workers'' then Some ''WorkerID''
      else if baseSheetName = ''Tasks'' then Some ''TaskID''
      else None)"

definition duplicate_error :: "string \<Rightarrow> string \<Rightarrow> nat \<Rightarrow> jsval \<Rightarrow> ValidationError" where
  "duplicate_error sheet idColumn index ident =
     \<lparr>etype = ''error'', message = ''Duplicate '' @ idColumn @ '': '' @ js_string ident,
      rowIndex = int index, column = idColumn, sheetName = sheet, evalue = Some ident\<rparr>"

text \<open>The loop over the rows carries the set \<^verbatim>\<open>seen\<close> and the row index.\<close>

fun duplicate_loop ::
  "string \<Rightarrow> string \<Rightarrow> string set \<Rightarrow> nat \<Rightarrow> row list \<Rightarrow> ValidationError list" where
  "duplicate_loop sheet idColumn seen index [] = []"
| "duplicate_loop sheet idColumn seen index (row # rest) =
     (let ident = get_prop row idColumn
      in (if truthy ident \<and> js_string ident \<in> seen
          then [duplicate_error sheet idColumn index ident] else [])
         @ duplicate_loop sheet idColumn
             (if truthy ident then insert (js_string ident) seen else seen) (Suc index) rest)"

definition validateDuplicateIDs :: "string \<Rightarrow> row list \<Rightarrow> ValidationError list" where
  "validateDuplicateIDs sheet data =
     (case id_column (getBaseSheetName sheet) of
        None \<Rightarrow> []
      | Some idColumn \<Rightarrow> duplicate_loop sheet idColumn {} 0 data)"

subsection \<open>Range checks\<close>

definition validatePriorityLevel :: "row list \<Rightarrow> string \<Rightarrow> ValidationError list" where
  "validatePriorityLevel data sheet =
     (if getBaseSheetName sheet \<noteq> ''Clients'' then []
      else for_each (\<lambda>row index.
             let priority = to_number (get_prop row ''PriorityLevel'')
             in if priority = NaN \<or> num_less priority (Finite 1) \<or> num_greater priority (Finite 5)
                then [\<lparr>etype = ''error'',
                       message = ''PriorityLevel must be between 1-5, got: ''
                                   @ js_string (get_prop row ''PriorityLevel''),
                       rowIndex = int index, column = ''PriorityLevel'', sheetName = sheet,
                       evalue = Some (get_prop row ''PriorityLevel'')\<rparr>]
                else []) data)"

definition validateDuration :: "row list \<Rightarrow> string \<Rightarrow> ValidationError list" where
  "validateDuration data sheet =
     (if getBaseSheetName sheet \<noteq> ''Tasks'' then []
      else for_each (\<lambda>row index.
             let duration = to_number (get_prop row ''Duration'')
             in if duration = NaN \<or> num_less duration (Finite 1)
                then [\<lparr>etype = ''error'',
                       message = ''Duration must be >= 1, got: '' @ js_string (get_prop row ''Duration''),
                       rowIndex = int index, column = ''Duration'', sheetName = sheet,
                       evalue = Some (get_prop row ''Duration'')\<rparr>]
                else []) data)"

subsection \<open>The helper parsers\<close>

text \<open>\<^verbatim>\<open>parseCSVList\<close> of \<^verbatim>\<open>lib/validation.ts\<close>.\<close>

definition parseCSVList :: "jsval \<Rightarrow> string list" where
  "parseCSVList val =
     (case val of
        VStr s \<Rightarrow> filter (\<lambda>v. v \<noteq> []) (map trim (split_on CHR '','' s))
      | VArr xs \<Rightarrow> map js_string xs
      | _ \<Rightarrow> [])"

text \<open>\<^verbatim>\<open>ToLength\<close>: NaN and negatives are \<open>0\<close>, fractions are cut, the cap is \<open>2^53 - 1\<close>.\<close>

fun to_length :: "jsnum \<Rightarrow> int" where
  "to_length NaN = 0"
| "to_length NegInf = 0"
| "to_length PosInf = 2 ^ 53 - 1"
| "to_length (Finite q) = (if q \<le> 0 then 0 else min \<lfloor>q\<rfloor> (2 ^ 53 - 1))"

text \<open>
  \<^verbatim>\<open>Array.from({ length: end - start + 1 }, (_, i) => start + i)\<close>. A length above
  \<open>2^32 - 1\<close> makes the array constructor throw a \<^verbatim>\<open>RangeError\<close>, here \<open>None\<close>.
\<close>

definition array_from_range :: "jsnum \<Rightarrow> jsnum \<Rightarrow> jsval list option" where
  "array_from_range start end =
     (let len = to_length (num_add (num_sub end start) (Finite 1))
      in if 2 ^ 32 - 1 < len then None
         else Some (map (\<lambda>i. VNum (num_add start (Finite (of_nat i)))) [0..<nat len]))"

text \<open>
  \<^verbatim>\<open>parseNumberArray\<close> of \<^verbatim>\<open>lib/validation.ts\<close>. The result is declared \<^verbatim>\<open>number[]\<close>, but
  for a string without a hyphen it is whatever \<^verbatim>\<open>JSON.parse\<close> returns. Destructuring takes
  the first two pieces of the split (a string with a hyphen has at least two). Every
  exception inside is caught and gives the empty array.
\<close>

definition parseNumberArray :: "jsval \<Rightarrow> jsval" where
  "parseNumberArray val =
     (case val of
        VStr s \<Rightarrow>
          if CHR ''-'' \<in> set s then
            (case map str_to_num (split_on CHR ''-'' s) of
               start # end # _ \<Rightarrow>
                 (case array_from_range start end of Some xs \<Rightarrow> VArr xs | None \<Rightarrow> VArr [])
             | _ \<Rightarrow> VArr [])
          else (case json_parse s of Some v \<Rightarrow> v | None \<Rightarrow> VArr [])
      | VArr xs \<Rightarrow> VArr (map (\<lambda>x. VNum (to_number x)) xs)
      | _ \<Rightarrow> VArr [])"

subsection \<open>Available slots and the JSON attributes\<close>

definition validateAvailableSlots :: "row list \<Rightarrow> string \<Rightarrow> exn + ValidationError list" where
  "validateAvailableSlots data sheet =
     (if getBaseSheetName sheet \<noteq> ''Workers'' then Inr []
      else for_each_exn (\<lambda>row index.
             case parseNumberArray (get_prop row ''AvailableSlots'') of
               VArr slots \<Rightarrow>
                 Inr (if list_ex isNaN slots
                      then [\<lparr>etype = ''error'',
                             message = ''AvailableSlots contains non-numeric values: ''
                                         @ js_string (get_prop row ''AvailableSlots''),
                             rowIndex = int index, column = ''AvailableSlots'', sheetName = sheet,
                             evalue = Some (get_prop row ''AvailableSlots'')\<rparr>]
                      else [])
             | _ \<Rightarrow> Inl TypeError) data)"

text \<open>The test that takes a text for a simple sentence rather than for broken JSON.\<close>

definition simple_sentence :: "string \<Rightarrow> bool" where
  "simple_sentence trimmedValue =
     (\<not> starts_with ''{'' trimmedValue \<and> \<not> starts_with ''['' trimmedValue
      \<and> CHR '':'' \<notin> set trimmedValue)"

definition invalid_json_error :: "string \<Rightarrow> nat \<Rightarrow> jsval \<Rightarrow> ValidationError" where
  "invalid_json_error sheet index v =
     \<lparr>etype = ''error'', message = ''Invalid JSON in AttributesJSON: '' @ js_string v,
      rowIndex = int index, column = ''AttributesJSON'', sheetName = sheet, evalue = Some v\<rparr>"

text \<open>
  The body of the loop of \<^verbatim>\<open>validateAttributesJSON\<close> for one row: the row as the body
  leaves it, and the errors it pushes. Nothing in the body can throw on such a row, so the
  outer \<^verbatim>\<open>catch\<close> is never entered.
\<close>

definition attributes_row :: "string \<Rightarrow> row \<Rightarrow> nat \<Rightarrow> row \<times> ValidationError list" where
  "attributes_row sheet row index =
     (case get_prop row ''AttributesJSON'' of
        VStr s \<Rightarrow>
          if s = [] then (row, [])
          else (case json_parse s of
                  Some v \<Rightarrow> (row, [])
                | None \<Rightarrow>
                    (let trimmedValue = trim s
                     in if simple_sentence trimmedValue
                        then (set_prop row ''AttributesJSON'' (VStr (stringify_message trimmedValue)), [])
                        else (row, [invalid_json_error sheet index (VStr s)])))
      | _ \<Rightarrow> (row, []))"

text \<open>\<^verbatim>\<open>validateAttributesJSON\<close> writes into the rows it is given: it returns the rows as
  it leaves them, next to its errors.\<close>

definition validateAttributesJSON :: "row list \<Rightarrow> string \<Rightarrow> row list \<times> ValidationError list" where
  "validateAttributesJSON data sheet =
     (if getBaseSheetName sheet \<noteq> ''Clients'' then (data, [])
      else (let results = map (\<lambda>(index, row). attributes_row sheet row index) (enumerate 0 data)
            in (map fst results, concat (map snd results))))"

subsection \<open>Checks across sheets\<close>

text \<open>
  \<^verbatim>\<open>taskIds\<close> is a \<^verbatim>\<open>Set\<close> of the raw \<^verbatim>\<open>TaskID\<close> cells; the requested ids looked up in
  it are strings, and a string is found only if the same string is a member.
\<close>

definition validateTaskReferences :: "row list \<Rightarrow> row list \<Rightarrow> ValidationError list" where
  "validateTaskReferences clients tasks =
     (let taskIds = set (map (\<lambda>t. get_prop t ''TaskID'') tasks)
      in for_each (\<lambda>client index.
           let requestedTasks = parseCSVList (get_prop client ''RequestedTaskIDs'');
               invalidTasks = filter (\<lambda>taskId. VStr taskId \<notin> taskIds) requestedTasks
           in map (\<lambda>taskId.
                \<lparr>etype = ''error'',
                 message = ''RequestedTaskID '' @ [CHR 0x22] @ taskId @ [CHR 0x22]
                             @ '' not found in Tasks sheet'',
                 rowIndex = int index, column = ''RequestedTaskIDs'', sheetName = ''Clients'',
                 evalue = Some (VStr taskId)\<rparr>) invalidTasks) clients)"

text \<open>
  The property \<^verbatim>\<open>length\<close> of what \<^verbatim>\<open>parseNumberArray\<close> returned: the number of elements
  of an array, the number of characters of a string, the member of that name of an object,
  \<^verbatim>\<open>undefined\<close> on a number or a boolean, and a \<^verbatim>\<open>TypeError\<close> on \<^verbatim>\<open>null\<close>.
\<close>

definition js_length :: "jsval \<Rightarrow> exn + jsval" where
  "js_length v =
     (case v of
        VArr xs \<Rightarrow> Inr (VNum (Finite (of_nat (length xs))))
      | VStr t \<Rightarrow> Inr (VNum (Finite (of_nat (length t))))
      | VObj kvs \<Rightarrow> Inr (get_prop kvs ''length'')
      | VNull \<Rightarrow> Inl TypeError
      | VUndefined \<Rightarrow> Inl TypeError
      | _ \<Rightarrow> Inr VUndefined)"

text \<open>\<^verbatim>\<open>availableSlots.length < maxLoad\<close> has a number on the right, so the left side is
  converted to a number too.\<close>

definition validateWorkerOverload :: "row list \<Rightarrow> exn + ValidationError list" where
  "validateWorkerOverload workers =
     for_each_exn (\<lambda>worker index.
       let availableSlots = parseNumberArray (get_prop worker ''AvailableSlots'');
           maxLoad = to_number (get_prop worker ''MaxLoadPerPhase'')
       in case js_length availableSlots of
            Inl e \<Rightarrow> Inl e
          | Inr len \<Rightarrow>
              Inr (if num_less (to_number len) maxLoad
                   then [\<lparr>etype = ''error'',
                          message = ''Worker has '' @ js_string len
                                      @ '' available slots but MaxLoadPerPhase is ''
                                      @ num_to_string maxLoad,
                          rowIndex = int index, column = ''MaxLoadPerPhase'',
                          sheetName = ''Workers'', evalue = Some (VNum maxLoad)\<rparr>]
                   else [])) workers"

definition validateSkillCoverage :: "row list \<Rightarrow> row list \<Rightarrow> ValidationError list" where
  "validateSkillCoverage workers tasks =
     (let workerSkills = set (concat (map (\<lambda>worker. parseCSVList (get_prop worker ''Skills'')) workers))
      in for_each (\<lambda>task index.
           let requiredSkills = parseCSVList (get_prop task ''RequiredSkills'');
               missingSkills = filter (\<lambda>skill. skill \<notin> workerSkills) requiredSkills
           in map (\<lambda>skill.
                \<lparr>etype = ''error'',
                 message = ''Required skill '' @ [CHR 0x22] @ skill @ [CHR 0x22]
                             @ '' not available in any worker'',
                 rowIndex = int index, column = ''RequiredSkills'', sheetName = ''Tasks'',
                 evalue = Some (VStr skill)\<rparr>) missingSkills) tasks)"

definition qualified_workers :: "row list \<Rightarrow> string list \<Rightarrow> row list" where
  "qualified_workers workers requiredSkills =
     filter (\<lambda>worker.
       let workerSkills = parseCSVList (get_prop worker ''Skills'')
       in list_ex (\<lambda>skill. skill \<in> set workerSkills) requiredSkills) workers"

definition validateMaxConcurrency :: "row list \<Rightarrow> row list \<Rightarrow> ValidationError list" where
  "validateMaxConcurrency tasks workers =
     for_each (\<lambda>task index.
       let maxConcurrent = to_number (get_prop task ''MaxConcurrent'');
           requiredSkills = parseCSVList (get_prop task ''RequiredSkills'');
           qualifiedWorkers = qualified_workers workers requiredSkills
       in if num_less (Finite (of_nat (length qualifiedWorkers))) maxConcurrent
          then [\<lparr>etype = ''error'',
                 message = ''MaxConcurrent ('' @ num_to_string maxConcurrent
                             @ '') exceeds qualified workers (''
                             @ nat_to_dec (length qualifiedWorkers) @ '')'',
                 rowIndex = int index, column = ''MaxConcurrent'', sheetName = ''Tasks'',
                 evalue = Some (VNum maxConcurrent)\<rparr>]
          else []) tasks"

text \<open>The two placeholders build nothing that reaches their result.\<close>

definition validateCircularCoRunGroups :: "row list \<Rightarrow> ValidationError list" where
  "validateCircularCoRunGroups clients = []"

definition validateConflictingRules :: "row list \<Rightarrow> ValidationError list" where
  "validateConflictingRules tasks = []"

subsection \<open>Phase-slot saturation\<close>

text \<open>
  A \<^verbatim>\<open>Map\<close> keyed by phases, as the list of its entries in insertion order. The keys are
  whatever \<^verbatim>\<open>parseNumberArray\<close> put into its array. Two primitive keys are the same key
  when they are equal (NaN is one key); an array or object that came out of \<^verbatim>\<open>JSON.parse\<close>
  is a fresh object and the same key as nothing else.
\<close>

type_synonym phase_map = "(jsval \<times> jsnum) list"

definition is_primitive :: "jsval \<Rightarrow> bool" where
  "is_primitive v = (case v of VArr xs \<Rightarrow> False | VObj kvs \<Rightarrow> False | _ \<Rightarrow> True)"

definition same_key :: "jsval \<Rightarrow> jsval \<Rightarrow> bool" where
  "same_key a b = (is_primitive a \<and> a = b)"

fun map_get :: "phase_map \<Rightarrow> jsval \<Rightarrow> jsnum option" where
  "map_get [] k = None"
| "map_get ((k', n) # m) k = (if same_key k' k then Some n else map_get m k)"

fun map_set :: "phase_map \<Rightarrow> jsval \<Rightarrow> jsnum \<Rightarrow> phase_map" where
  "map_set [] k n = [(k, n)]"
| "map_set ((k', n') # m) k n = (if same_key k' k then (k', n) # m else (k', n') # map_set m k n)"

text \<open>\<^verbatim>\<open>m.get(k) || 0\<close>: a missing entry, \<open>0\<close> and NaN all give \<open>0\<close>.\<close>

definition get_or_zero :: "phase_map \<Rightarrow> jsval \<Rightarrow> jsnum" where
  "get_or_zero m k =
     (case map_get m k of
        None \<Rightarrow> Finite 0
      | Some n \<Rightarrow> if n = NaN \<or> n = Finite 0 then Finite 0 else n)"

text \<open>The inner loops: every phase of the list gets the amount added to its entry.\<close>

definition add_to_phases :: "phase_map \<Rightarrow> jsval list \<Rightarrow> jsnum \<Rightarrow> phase_map" where
  "add_to_phases m phases amount =
     foldl (\<lambda>m phase. map_set m phase (num_add (get_or_zero m phase) amount)) m phases"

text \<open>The loop over the workers; \<^verbatim>\<open>forEach\<close> on something that is no array throws.\<close>

fun slots_loop :: "phase_map \<Rightarrow> row list \<Rightarrow> exn + phase_map" where
  "slots_loop phaseSlots [] = Inr phaseSlots"
| "slots_loop phaseSlots (worker # rest) =
     (case parseNumberArray (get_prop worker ''AvailableSlots'') of
        VArr availableSlots \<Rightarrow>
          slots_loop (add_to_phases phaseSlots availableSlots
                        (to_number (get_prop worker ''MaxLoadPerPhase''))) rest
      | _ \<Rightarrow> Inl TypeError)"

text \<open>The loop over the tasks.\<close>

fun requirements_loop :: "phase_map \<Rightarrow> row list \<Rightarrow> exn + phase_map" where
  "requirements_loop phaseRequirements [] = Inr phaseRequirements"
| "requirements_loop phaseRequirements (task # rest) =
     (case parseNumberArray (get_prop task ''PreferredPhases'') of
        VArr preferredPhases \<Rightarrow>
          requirements_loop
            (add_to_phases phaseRequirements preferredPhases
               (num_mul (to_number (get_prop task ''Duration''))
                        (to_number (get_prop task ''MaxConcurrent'')))) rest
      | _ \<Rightarrow> Inl TypeError)"

definition saturation_error :: "jsval \<Rightarrow> jsnum \<Rightarrow> jsnum \<Rightarrow> ValidationError" where
  "saturation_error phase required available =
     \<lparr>etype = ''error'',
      message = ''Phase '' @ js_string phase @ '' requires '' @ num_to_string required
                  @ '' slots but only '' @ num_to_string available @ '' are available'',
      rowIndex = - 1, column = ''PreferredPhases'', sheetName = ''Tasks'',
      evalue = Some (VStr (''Phase '' @ js_string phase))\<rparr>"

definition saturation_errors :: "phase_map \<Rightarrow> phase_map \<Rightarrow> ValidationError list" where
  "saturation_errors phaseSlots phaseRequirements =
     concat (map (\<lambda>(phase, required).
       let available = get_or_zero phaseSlots phase
       in if num_greater required available then [saturation_error phase required available]
          else []) phaseRequirements)"

definition validatePhaseSlotSaturation :: "row list \<Rightarrow> row list \<Rightarrow> exn + ValidationError list" where
  "validatePhaseSlotSaturation tasks workers =
     (case slots_loop [] workers of
        Inl e \<Rightarrow> Inl e
      | Inr phaseSlots \<Rightarrow>
          (case requirements_loop [] tasks of
             Inl e \<Rightarrow> Inl e
           | Inr phaseRequirements \<Rightarrow> Inr (saturation_errors phaseSlots phaseRequirements)))"

subsection \<open>The main validation function\<close>

text \<open>
  \<^verbatim>\<open>workSheets\<close> is a \<^verbatim>\<open>Record<string, any[]>\<close>: here the list of its entries in the order
  \<^verbatim>\<open>Object.entries\<close> and \<^verbatim>\<open>Object.keys\<close> give them, with distinct names. The rows of a
  snapshot are separate objects (the reader builds a fresh object per row), so writing into
  one row changes no other.

  \<^verbatim>\<open>validateAllData\<close> returns its result or throws; either way the rows are left as the
  checks that ran have written them. The model returns both: the snapshot afterwards, and
  the result or the exception.
\<close>

type_synonym snapshot = "(string \<times> row list) list"

text \<open>The body of the loop over the sheets, for one sheet.\<close>

definition validate_sheet :: "string \<Rightarrow> row list \<Rightarrow> row list \<times> (exn + ValidationError list)" where
  "validate_sheet sheet data =
     (case validateRequiredColumns sheet data of
        Inl e \<Rightarrow> (data, Inl e)
      | Inr requiredErrors \<Rightarrow>
          (let duplicateErrors = validateDuplicateIDs sheet data;
               baseSheetName = getBaseSheetName sheet;
               priorityErrors =
                 (if baseSheetName = ''Clients'' then validatePriorityLevel data sheet else []);
               attributes =
                 (if baseSheetName = ''Clients'' then validateAttributesJSON data sheet
                  else (data, []));
               data' = fst attributes
           in case (if baseSheetName = ''Workers'' then validateAvailableSlots data' sheet
                    else Inr []) of
                Inl e \<Rightarrow> (data', Inl e)
              | Inr slotErrors \<Rightarrow>
                  (data',
                   Inr (requiredErrors @ duplicateErrors @ priorityErrors @ snd attributes
                        @ slotErrors
                        @ (if baseSheetName = ''Tasks'' then validateDuration data' sheet
                           else [])))))"

text \<open>The loop over the sheets: an exception ends it, and the later sheets stay untouched.\<close>

fun sheets_loop :: "snapshot \<Rightarrow> snapshot \<times> (exn + ValidationError list)" where
  "sheets_loop [] = ([], Inr [])"
| "sheets_loop ((sheet, data) # rest) =
     (case validate_sheet sheet data of
        (data', Inl e) \<Rightarrow> ((sheet, data') # rest, Inl e)
      | (data', Inr errs) \<Rightarrow>
          (case sheets_loop rest of
             (rest', Inl e) \<Rightarrow> ((sheet, data') # rest', Inl e)
           | (rest', Inr later) \<Rightarrow> ((sheet, data') # rest', Inr (errs @ later))))"

text \<open>\<^verbatim>\<open>Object.keys(workSheets).find(name => getBaseSheetName(name) === kind)\<close>.\<close>

definition find_sheet :: "snapshot \<Rightarrow> string \<Rightarrow> string option" where
  "find_sheet workSheets kind = find (\<lambda>name. getBaseSheetName name = kind) (map fst workSheets)"

text \<open>\<^verbatim>\<open>workSheets[name]\<close> for a name that \<open>find_sheet\<close> returned.\<close>

definition sheet_rows :: "snapshot \<Rightarrow> string \<Rightarrow> row list" where
  "sheet_rows workSheets name = (case map_of workSheets name of Some data \<Rightarrow> data | None \<Rightarrow> [])"

definition retag :: "string \<Rightarrow> ValidationError list \<Rightarrow> ValidationError list" where
  "retag name errs = map (\<lambda>error. error\<lparr>sheetName := name\<rparr>) errs"

text \<open>
  The checks across sheets, in the order of the source. A sheet name found by \<open>find_sheet\<close>
  is never empty, so the truth tests on the names are tests for a sheet having been found.
\<close>

definition cross_sheet :: "snapshot \<Rightarrow> exn + ValidationError list" where
  "cross_sheet workSheets =
     (let clientsSheet = find_sheet workSheets ''Clients'';
          workersSheet = find_sheet workSheets ''Workers'';
          tasksSheet = find_sheet workSheets ''Tasks'';
          refErrors =
            (case (clientsSheet, tasksSheet) of
               (Some c, Some t) \<Rightarrow>
                 retag c (validateTaskReferences (sheet_rows workSheets c) (sheet_rows workSheets t))
             | _ \<Rightarrow> [])
      in case (case workersSheet of
                 Some w \<Rightarrow> validateWorkerOverload (sheet_rows workSheets w)
               | None \<Rightarrow> Inr []) of
           Inl e \<Rightarrow> Inl e
         | Inr overloadErrors \<Rightarrow>
             (case (case (workersSheet, tasksSheet) of
                      (Some w, Some t) \<Rightarrow>
                        (let skillErrors =
                               validateSkillCoverage (sheet_rows workSheets w) (sheet_rows workSheets t);
                             concurrencyErrors =
                               validateMaxConcurrency (sheet_rows workSheets t) (sheet_rows workSheets w)
                         in case validatePhaseSlotSaturation
                                   (sheet_rows workSheets t) (sheet_rows workSheets w) of
                              Inl e \<Rightarrow> Inl e
                            | Inr saturationErrors \<Rightarrow>
                                Inr (retag t skillErrors @ retag t concurrencyErrors
                                     @ retag t saturationErrors))
                    | _ \<Rightarrow> Inr []) of
                Inl e \<Rightarrow> Inl e
              | Inr coverageErrors \<Rightarrow>
                  Inr (refErrors
                       @ retag (case workersSheet of Some w \<Rightarrow> w | None \<Rightarrow> []) overloadErrors
                       @ coverageErrors
                       @ (case clientsSheet of
                            Some c \<Rightarrow> validateCircularCoRunGroups (sheet_rows workSheets c)
                          | None \<Rightarrow> [])
                       @ (case tasksSheet of
                            Some t \<Rightarrow> validateConflictingRules (sheet_rows workSheets t)
                          | None \<Rightarrow> []))))"

definition validateAllData :: "snapshot \<Rightarrow> snapshot \<times> (exn + ValidationResult)" where
  "validateAllData workSheets =
     (case sheets_loop workSheets of
        (workSheets', Inl e) \<Rightarrow> (workSheets', Inl e)
      | (workSheets', Inr sheetErrors) \<Rightarrow>
          (case cross_sheet workSheets' of
             Inl e \<Rightarrow> (workSheets', Inl e)
           | Inr crossErrors \<Rightarrow>
               (let allErrors = sheetErrors @ crossErrors
                in (workSheets', Inr \<lparr>isValid = (length allErrors = 0), errors = allErrors\<rparr>))))"

section \<open>The phase normalizer of the page\<close>

text \<open>
  \<^verbatim>\<open>normalizePreferredPhases\<close> of \<^verbatim>\<open>app/page.tsx\<close>, called on string cells of task sheets
  when a workbook is read. The test \<^verbatim>\<open>/^\d+\s*-\s*\d+$/\<close> is \<open>is_range\<close>. The range branch
  stands before the \<^verbatim>\<open>try\<close> block, so the \<^verbatim>\<open>RangeError\<close> of \<^verbatim>\<open>Array.from\<close> escapes; the
  exceptions of the other two branches are caught.
\<close>

definition is_range :: "string \<Rightarrow> bool" where
  "is_range input =
     (let d1 = takeWhile is_digit input;
          r1 = dropWhile js_ws (dropWhile is_digit input)
      in d1 \<noteq> [] \<and>
         (case r1 of
            [] \<Rightarrow> False
          | c # r2 \<Rightarrow> c = CHR ''-'' \<and> all_digits (dropWhile js_ws r2)))"

definition normalizePreferredPhases :: "string \<Rightarrow> exn + jsval" where
  "normalizePreferredPhases input =
     (if input = [] then Inr (VArr [])
      else if is_range input then
        (case map str_to_num (split_on CHR ''-'' input) of
           start # end # _ \<Rightarrow>
             (case array_from_range start end of
                Some xs \<Rightarrow> Inr (VArr xs)
              | None \<Rightarrow> Inl RangeError)
         | _ \<Rightarrow> Inr (VArr []))
      else if starts_with ''['' (trim input) then
        (case json_parse input of Some v \<Rightarrow> Inr v | None \<Rightarrow> Inr (VArr []))
      else Inr (VArr (map VNum (filter (\<lambda>v. v \<noteq> NaN)
                        (map (\<lambda>v. str_to_num (trim v)) (split_on CHR '','' input))))))"

section \<open>The data of the duplicate-ID test\<close>

text \<open>\<^verbatim>\<open>testData\<close> of \<^verbatim>\<open>test-validation.js\<close>.\<close>

definition testClients :: "row list" where
  "testClients =
     [[(''ClientID'', VStr ''C001''), (''ClientName'', VStr ''Client A''),
       (''PriorityLevel'', VNum (Finite 3)), (''RequestedTaskIDs'', VStr ''T001,T002''),
       (''GroupTag'', VStr ''Group1''), (''AttributesJSON'', VStr ''{\"region\": \"US\"}'')],
      [(''ClientID'', VStr ''C002''), (''ClientName'', VStr ''Client B''),
       (''PriorityLevel'', VNum (Finite 2)), (''RequestedTaskIDs'', VStr ''T003''),
       (''GroupTag'', VStr ''Group2''), (''AttributesJSON'', VStr ''{\"region\": \"EU\"}'')],
      [(''ClientID'', VStr ''C001''), (''ClientName'', VStr ''Client C''),
       (''PriorityLevel'', VNum (Finite 4)), (''RequestedTaskIDs'', VStr ''T004''),
       (''GroupTag'', VStr ''Group3''), (''AttributesJSON'', VStr ''{\"region\": \"ASIA\"}'')]]"

definition testWorkers :: "row list" where
  "testWorkers =
     [[(''WorkerID'', VStr ''W001''), (''WorkerName'', VStr ''Worker A''),
       (''Skills'', VStr ''Skill1,Skill2''), (''AvailableSlots'', VStr ''[1,2,3]''),
       (''MaxLoadPerPhase'', VNum (Finite 2)), (''WorkerGroup'', VStr ''Group1''),
       (''QualificationLevel'', VStr ''Senior'')],
      [(''WorkerID'', VStr ''W002''), (''WorkerName'', VStr ''Worker B''),
       (''Skills'', VStr ''Skill2,Skill3''), (''AvailableSlots'', VStr ''[2,3,4]''),
       (''MaxLoadPerPhase'', VNum (Finite 1)), (''WorkerGroup'', VStr ''Group2''),
       (''QualificationLevel'', VStr ''Junior'')]]"

definition testTasks :: "row list" where
  "testTasks =
     [[(''TaskID'', VStr ''T001''), (''TaskName'', VStr ''Task A''),
       (''Category'', VStr ''Category1''), (''Duration'', VNum (Finite 5)),
       (''RequiredSkills'', VStr ''Skill1''), (''PreferredPhases'', VStr ''[1,2]''),
       (''MaxConcurrent'', VNum (Finite 2))],
      [(''TaskID'', VStr ''T002''), (''TaskName'', VStr ''Task B''),
       (''Category'', VStr ''Category2''), (''Duration'', VNum (Finite 3)),
       (''RequiredSkills'', VStr ''Skill2''), (''PreferredPhases'', VStr ''[2,3]''),
       (''MaxConcurrent'', VNum (Finite 1))]]"

definition testData :: snapshot where
  "testData = [(''Clients 1'', testClients), (''Worker 1'', testWorkers), (''Tasks 1'', testTasks)]"

section \<open>Predicates used in the statements\<close>

text \<open>
  A row is flagged by the duplicate loop, started with a given \<^verbatim>\<open>seen\<close> set, when its ID is
  truthy and its string is in the set or is the string of the truthy ID of an earlier row.
\<close>

definition flagged :: "string \<Rightarrow> string set \<Rightarrow> row list \<Rightarrow> nat \<Rightarrow> bool" where
  "flagged idc seen data i =
     (truthy (get_prop (data ! i) idc) \<and>
      (js_string (get_prop (data ! i) idc) \<in> seen \<or>
       (\<exists>j<i. truthy (get_prop (data ! j) idc) \<and>
              js_string (get_prop (data ! j) idc) = js_string (get_prop (data ! i) idc))))"









text \<open>A count: a non-negative integer that doubles hold exactly, at most \<open>2^53\<close>.\<close>

definition is_count :: "jsnum \<Rightarrow> bool" where
  "is_count n =
     (case n of Finite q \<Rightarrow> 0 \<le> q \<and> q \<le> 2 ^ 53 \<and> q = of_int \<lfloor>q\<rfloor> | _ \<Rightarrow> False)"

text \<open>
  Rows typed as the data model has them: the phases normalize to an array of primitive
  values, and the numeric fields convert to counts.
\<close>

definition is_phase_array :: "jsval \<Rightarrow> bool" where
  "is_phase_array v = (case v of VArr xs \<Rightarrow> list_all is_primitive xs | _ \<Rightarrow> False)"

definition typed_worker :: "row \<Rightarrow> bool" where
  "typed_worker worker =
     (is_phase_array (parseNumberArray (get_prop worker ''AvailableSlots'')) \<and>
      is_count (to_number (get_prop worker ''MaxLoadPerPhase'')))"












text \<open>
  The auto-repair of one client row: the row it leaves, for a row that takes that branch.
  \<open>repaired\<close> is the row after the attribute check, repaired or as it was.
\<close>

definition repair_of :: "row \<Rightarrow> row option" where
  "repair_of row =
     (case get_prop row ''AttributesJSON'' of
        VStr s \<Rightarrow>
          if s \<noteq> [] \<and> json_parse s = None \<and> simple_sentence (trim s)
          then Some (set_prop row ''AttributesJSON'' (VStr (stringify_message (trim s))))
          else None
      | _ \<Rightarrow> None)"

definition repaired :: "row \<Rightarrow> row" where
  "repaired row = (case repair_of row of Some row' \<Rightarrow> row' | None \<Rightarrow> row)"

definition repaired_sheet :: "string \<times> row list \<Rightarrow> string \<times> row list" where
  "repaired_sheet entry =
     (fst entry, if getBaseSheetName (fst entry) = ''Clients'' then map repaired (snd entry)
                 else snd entry)"

text \<open>Two rows with the same keys and the same cells but for \<^verbatim>\<open>AttributesJSON\<close>.\<close>

definition same_but_attributes :: "row \<Rightarrow> row \<Rightarrow> bool" where
  "same_but_attributes row row' =
     (map fst row' = map fst row \<and>
      (\<forall>k. k \<noteq> ''AttributesJSON'' \<longrightarrow> get_prop row' k = get_prop row k))"

text \<open>What one run may have done to a sheet: each row is as it was, or, in a client
  sheet, auto-repaired.\<close>

definition frame_sheet :: "string \<times> row list \<Rightarrow> string \<times> row list \<Rightarrow> bool" where
  "frame_sheet before after =
     (fst after = fst before \<and>
      list_all2 (\<lambda>row row'. row' = row \<or>
                   (getBaseSheetName (fst before) = ''Clients'' \<and> repair_of row = Some row'))
        (snd before) (snd after))"

text \<open>A snapshot with one client sheet of one row, whose attributes are a plain sentence.\<close>

definition vipSnapshot :: snapshot where
  "vipSnapshot =
     [(''Clients 1'',
       [[(''ClientID'', VStr ''C001''), (''ClientName'', VStr ''Client A''),
         (''PriorityLevel'', VNum (Finite 3)), (''RequestedTaskIDs'', VStr ''T001,T002''),
         (''GroupTag'', VStr ''Group1''), (''AttributesJSON'', VStr ''vip customer'')]])]"

section \<open>A valid snapshot\<close>























section \<open>Doubles hold the safe integers exactly\<close>

lemma bit_length_pos:
  "0 < n \<Longrightarrow> 1 \<le> bit_length n \<and> 2 ^ nat (bit_length n - 1) \<le> n \<and> n < 2 ^ nat (bit_length n)"
proof (induction n rule: bit_length.induct)
  case (1 n)
  show ?case
  proof (cases "n = 1")
    case True
    have "bit_length 1 = 1"
      by (subst bit_length.simps, simp, subst bit_length.simps, simp)
    with True show ?thesis by simp
  next
    case False
    with 1 have half: "0 < n div 2" by simp
    then have ih: "1 \<le> bit_length (n div 2)"
      "2 ^ nat (bit_length (n div 2) - 1) \<le> n div 2" "n div 2 < 2 ^ nat (bit_length (n div 2))"
      using 1 by simp_all
    have bl: "bit_length n = 1 + bit_length (n div 2)"
      using 1(2) by (subst bit_length.simps) simp
    have e1: "nat (bit_length n - 1) = Suc (nat (bit_length (n div 2) - 1))"
      using ih(1) bl by simp
    have e2: "nat (bit_length n) = Suc (nat (bit_length (n div 2)))"
      using ih(1) bl by simp
    have "2 * 2 ^ nat (bit_length (n div 2) - 1) \<le> n" using ih(2) by simp
    moreover have "n < 2 * 2 ^ nat (bit_length (n div 2))" using ih(3) by simp
    ultimately show ?thesis using ih(1) bl unfolding e1 e2 by simp
  qed
qed

lemma round_half_even_int [simp]: "round_half_even (of_int k) = k"
  by (simp add: round_half_even_def)

lemma bit_length_le:
  assumes "0 < n" "n < 2 ^ k"
  shows "bit_length n \<le> int k"
proof (rule ccontr)
  assume "\<not> bit_length n \<le> int k"
  then have "k \<le> nat (bit_length n - 1)" by simp
  then have "(2::int) ^ k \<le> 2 ^ nat (bit_length n - 1)" by (simp add: power_increasing)
  with bit_length_pos [OF assms(1)] assms(2) show False by simp
qed

lemma round_double_pos_int:
  assumes "0 < n" "n \<le> 2 ^ 53"
  shows "round_double (of_int n) = Finite (of_int n)"
proof -
  let ?e = "bit_length n - 1"
  from bit_length_pos [OF assms(1)] have
    b: "1 \<le> bit_length n" "2 ^ nat ?e \<le> n" "n < 2 ^ nat (bit_length n)" by simp_all
  have be: "binary_exponent \<bar>of_int n\<bar> = ?e"
    using assms(1) by (simp add: binary_exponent_def)
  have le53: "?e \<le> 53"
  proof -
    from assms(2) have "n < 2 ^ 54" by simp
    from bit_length_le [OF assms(1) this] show ?thesis by simp
  qed
  have mx: "max ?e (- 1022) = ?e" using b(1) by simp
  show ?thesis
  proof (cases "?e \<le> 52")
    case True
    define j where "j = nat (52 - ?e)"
    have j: "52 - ?e = int j" using True by (simp add: j_def)
    have sc: "scale2 \<bar>of_int n\<bar> (52 - ?e) = of_int (n * 2 ^ j)"
      using assms(1) unfolding j by (simp add: scale2_def)
    have inv: "scale2 (of_int (n * 2 ^ j)) (?e - 52) = of_int n"
    proof -
      have "?e - 52 = - int j" using j by simp
      then show ?thesis by (cases "j = 0") (simp_all add: scale2_def)
    qed
    have small: "\<not> (1024 \<le> ?e \<or> (?e = 1023 \<and> n * 2 ^ j = 2 ^ 53))" using True by simp
    show ?thesis
      unfolding round_double_def be mx Let_def sc round_half_even_int inv
      using assms(1) small by simp
  next
    case False
    with le53 have e: "?e = 53" by simp
    with b(2) assms(2) have n: "n = 2 ^ 53" by simp
    have "round_double 9007199254740992 = Finite 9007199254740992" by code_simp
    with n show ?thesis by simp
  qed
qed

lemma round_double_neg:
  "round_double (- x) =
     (case round_double x of
        Finite r \<Rightarrow> Finite (- r) | PosInf \<Rightarrow> NegInf | NegInf \<Rightarrow> PosInf | NaN \<Rightarrow> NaN)"
  by (cases "x = 0"; cases "x < 0") (auto simp: round_double_def Let_def)

lemma round_double_int:
  assumes "\<bar>n\<bar> \<le> 2 ^ 53"
  shows "round_double (of_int n) = Finite (of_int n)"
proof -
  consider "n = 0" | "0 < n" | "n < 0" by linarith
  then show ?thesis
  proof cases
    case 1
    then show ?thesis by (simp add: round_double_def)
  next
    case 2
    with assms show ?thesis by (intro round_double_pos_int) simp_all
  next
    case 3
    with assms have "round_double (of_int (- n)) = Finite (of_int (- n))"
      by (intro round_double_pos_int) simp_all
    then have "round_double (- of_int n) = Finite (- of_int n)" by simp
    then show ?thesis unfolding round_double_neg [of "of_int n"]
      by (auto split: jsnum.splits)
  qed
qed

lemma num_add_int:
  "\<bar>a + b\<bar> \<le> 2 ^ 53 \<Longrightarrow>
   num_add (Finite (of_int a)) (Finite (of_int b)) = Finite (of_int (a + b))"
  using round_double_int [of "a + b"] by simp

lemma num_sub_int:
  "\<bar>a - b\<bar> \<le> 2 ^ 53 \<Longrightarrow>
   num_sub (Finite (of_int a)) (Finite (of_int b)) = Finite (of_int (a - b))"
  using round_double_int [of "a - b"] by (simp add: num_sub_def)







section \<open>Required columns\<close>

lemma validateRequiredColumns_Nil: "validateRequiredColumns sheet [] = Inr []"
  by (simp add: validateRequiredColumns_def split: required_lookup.splits)

lemma validateRequiredColumns_first:
  "validateRequiredColumns sheet (first # rest) = validateRequiredColumns sheet [first]"
  by (simp add: validateRequiredColumns_def split: required_lookup.splits)

lemma validateRequiredColumns_Columns:
  "REQUIRED_COLUMNS (getBaseSheetName sheet) = Columns required \<Longrightarrow>
   validateRequiredColumns sheet (first # rest) =
     Inr (map (missing_column_error sheet) (filter (\<lambda>col. col \<notin> fst ` set first) required))"
  by (simp add: validateRequiredColumns_def object_keys_def)

text \<open>
  C9. On a sheet without rows the required-column check reports nothing, whatever the
  sheet is called. On a sheet with rows the later rows play no part: the result is that of
  the first row alone, and for a sheet kind with required columns it lists, in the order of
  the table, exactly the required columns that are no key of the first row.
\<close>

theorem required_columns_first_row_only:
  "validateRequiredColumns sheet [] = Inr [] \<and>
   validateRequiredColumns sheet (first # rest) = validateRequiredColumns sheet [first] \<and>
   (REQUIRED_COLUMNS (getBaseSheetName sheet) = Columns required \<longrightarrow>
      validateRequiredColumns sheet (first # rest) =
        Inr (map (missing_column_error sheet)
               (filter (\<lambda>col. col \<notin> fst ` set first) required)))"
  using validateRequiredColumns_Nil validateRequiredColumns_first validateRequiredColumns_Columns
  by blast

lemma getBaseSheetName_Clients_1: "getBaseSheetName ''Clients 1'' = ''Clients''"
  by code_simp

lemma getBaseSheetName_Worker_1: "getBaseSheetName ''Worker 1'' = ''Workers''"
  by code_simp


text \<open>
  A client sheet whose first row has only \<^verbatim>\<open>ClientID\<close> and \<^verbatim>\<open>GroupTag\<close>, followed by the
  complete rows of the test data: the four other columns are reported although the later
  rows have them.
\<close>

theorem required_columns_first_row_only_witness:
  "REQUIRED_COLUMNS (getBaseSheetName ''Clients 1'') =
     Columns [''ClientID'', ''ClientName'', ''PriorityLevel'', ''RequestedTaskIDs'',
              ''GroupTag'', ''AttributesJSON''] \<and>
   validateRequiredColumns ''Clients 1''
     ([(''ClientID'', VStr ''C000''), (''GroupTag'', VStr ''Group0'')] # testClients) =
     Inr (map (missing_column_error ''Clients 1'')
            [''ClientName'', ''PriorityLevel'', ''RequestedTaskIDs'', ''AttributesJSON''])"
proof -
  have req: "REQUIRED_COLUMNS (getBaseSheetName ''Clients 1'') =
     Columns [''ClientID'', ''ClientName'', ''PriorityLevel'', ''RequestedTaskIDs'',
              ''GroupTag'', ''AttributesJSON'']"
    by (simp add: getBaseSheetName_Clients_1 REQUIRED_COLUMNS_def)
  from required_columns_first_row_only
         [of "''Clients 1''" "[(''ClientID'', VStr ''C000''), (''GroupTag'', VStr ''Group0'')]"
             testClients
             "[''ClientID'', ''ClientName'', ''PriorityLevel'', ''RequestedTaskIDs'',
               ''GroupTag'', ''AttributesJSON'']"]
       req
  have "validateRequiredColumns ''Clients 1''
          ([(''ClientID'', VStr ''C000''), (''GroupTag'', VStr ''Group0'')] # testClients) =
        Inr (map (missing_column_error ''Clients 1'')
               (filter (\<lambda>col. col \<notin> fst ` set [(''ClientID'', VStr ''C000''),
                                                    (''GroupTag'', VStr ''Group0'')])
                  [''ClientID'', ''ClientName'', ''PriorityLevel'', ''RequestedTaskIDs'',
                   ''GroupTag'', ''AttributesJSON'']))"
    by blast
  then show ?thesis using req by simp
qed

section \<open>Duplicate IDs\<close>

lemma flagged_Cons_Suc:
  "flagged idc seen (row # rest) (Suc k) =
   flagged idc (if truthy (get_prop row idc) then insert (js_string (get_prop row idc)) seen
                else seen) rest k"
  by (auto simp: flagged_def less_Suc_eq_0_disj)

lemma duplicate_loop_indices:
  "map rowIndex (duplicate_loop sheet idc seen i data) =
   map (\<lambda>k. int (i + k)) (filter (flagged idc seen data) [0..<length data])"
proof (induction data arbitrary: seen i)
  case Nil
  then show ?case by simp
next
  case (Cons row rest)
  have upt: "[0..<length (row # rest)] = 0 # map Suc [0..<length rest]"
    by (simp add: upt_conv_Cons map_Suc_upt del: upt_Suc)
  have f0: "flagged idc seen (row # rest) 0 =
              (truthy (get_prop row idc) \<and> js_string (get_prop row idc) \<in> seen)"
    by (simp add: flagged_def)
  show ?case
    unfolding upt
    by (simp add: Cons.IH filter_map o_def flagged_Cons_Suc f0 duplicate_error_def Let_def
             del: upt_Suc)
qed

lemma validateDuplicateIDs_indices:
  "id_column (getBaseSheetName sheet) = Some idc \<Longrightarrow>
   map rowIndex (validateDuplicateIDs sheet data) =
   map int (filter (flagged idc {} data) [0..<length data])"
  by (simp add: validateDuplicateIDs_def duplicate_loop_indices)

lemma duplicate_loop_falsy_row:
  "\<not> truthy (get_prop row idc) \<Longrightarrow>
   duplicate_loop sheet idc seen i (row # rest) = duplicate_loop sheet idc seen (Suc i) rest"
  by simp

lemma duplicate_loop_all_falsy:
  "\<forall>row \<in> set data. \<not> truthy (get_prop row idc) \<Longrightarrow> duplicate_loop sheet idc seen i data = []"
  by (induction data arbitrary: i) simp_all


lemma id_column_Clients_1: "id_column (getBaseSheetName ''Clients 1'') = Some ''ClientID''"
  by (simp add: getBaseSheetName_Clients_1 id_column_def)



text \<open>
  C10. A row whose ID is falsy passes through the duplicate loop without an error and
  without a change of the \<^verbatim>\<open>seen\<close> set; every duplicate error sits on a row with a truthy
  ID; and a sheet all of whose IDs are falsy has no duplicate error.
\<close>

theorem falsy_ids_skipped:
  "(\<not> truthy (get_prop row idc) \<longrightarrow>
      duplicate_loop sheet idc seen i (row # rest) = duplicate_loop sheet idc seen (Suc i) rest) \<and>
   (error \<in> set (validateDuplicateIDs sheet data) \<longrightarrow>
      (\<exists>c k. id_column (getBaseSheetName sheet) = Some c \<and> rowIndex error = int k \<and>
             k < length data \<and> truthy (get_prop (data ! k) c))) \<and>
   ((\<forall>r \<in> set data. \<forall>c. id_column (getBaseSheetName sheet) = Some c \<longrightarrow>
        \<not> truthy (get_prop r c)) \<longrightarrow>
      validateDuplicateIDs sheet data = [])"
proof (intro conjI impI)
  assume "\<not> truthy (get_prop row idc)"
  then show "duplicate_loop sheet idc seen i (row # rest) =
             duplicate_loop sheet idc seen (Suc i) rest"
    by (rule duplicate_loop_falsy_row)
next
  assume mem: "error \<in> set (validateDuplicateIDs sheet data)"
  then obtain c where c: "id_column (getBaseSheetName sheet) = Some c"
    by (cases "id_column (getBaseSheetName sheet)") (auto simp: validateDuplicateIDs_def)
  from mem have "rowIndex error \<in> set (map rowIndex (validateDuplicateIDs sheet data))"
    by simp
  then have "rowIndex error \<in> int ` {k. k < length data \<and> flagged c {} data k}"
    unfolding validateDuplicateIDs_indices [OF c] by auto
  then obtain k where "rowIndex error = int k" "k < length data" "flagged c {} data k"
    by auto
  with c show "\<exists>c k. id_column (getBaseSheetName sheet) = Some c \<and> rowIndex error = int k \<and>
                     k < length data \<and> truthy (get_prop (data ! k) c)"
    by (auto simp: flagged_def)
next
  assume all: "\<forall>r \<in> set data. \<forall>c. id_column (getBaseSheetName sheet) = Some c \<longrightarrow>
                 \<not> truthy (get_prop r c)"
  show "validateDuplicateIDs sheet data = []"
  proof (cases "id_column (getBaseSheetName sheet)")
    case None
    then show ?thesis by (simp add: validateDuplicateIDs_def)
  next
    case (Some c)
    with all have "\<forall>r \<in> set data. \<not> truthy (get_prop r c)" by simp
    then show ?thesis by (simp add: validateDuplicateIDs_def Some duplicate_loop_all_falsy)
  qed
qed

text \<open>Four client rows with the IDs \<^verbatim>\<open>""\<close>, \<open>0\<close>, none and \<^verbatim>\<open>""\<close>: no duplicate error.\<close>

theorem falsy_ids_skipped_witness:
  "id_column (getBaseSheetName ''Clients 1'') = Some ''ClientID'' \<and>
   list_all (\<lambda>r. \<not> truthy (get_prop r ''ClientID''))
     [[(''ClientID'', VStr [])], [(''ClientID'', VNum (Finite 0))], [],
      [(''ClientID'', VStr [])]] \<and>
   validateDuplicateIDs ''Clients 1''
     [[(''ClientID'', VStr [])], [(''ClientID'', VNum (Finite 0))], [],
      [(''ClientID'', VStr [])]] = []"
proof -
  have falsy: "list_all (\<lambda>r. \<not> truthy (get_prop r ''ClientID''))
     [[(''ClientID'', VStr [])], [(''ClientID'', VNum (Finite 0))], [],
      [(''ClientID'', VStr [])]]"
    by (simp add: get_prop_def)
  then have all: "\<forall>r \<in> set [[(''ClientID'', VStr [])], [(''ClientID'', VNum (Finite 0))], [],
                        [(''ClientID'', VStr [])]].
      \<forall>c. id_column (getBaseSheetName ''Clients 1'') = Some c \<longrightarrow> \<not> truthy (get_prop r c)"
    by (simp add: id_column_Clients_1)
  from falsy_ids_skipped
         [of "[]" "''ClientID''" "''Clients 1''" "{}" 0 "[]" undefined
             "[[(''ClientID'', VStr [])], [(''ClientID'', VNum (Finite 0))], [],
               [(''ClientID'', VStr [])]]"]
       all
  have "validateDuplicateIDs ''Clients 1''
     [[(''ClientID'', VStr [])], [(''ClientID'', VNum (Finite 0))], [],
      [(''ClientID'', VStr [])]] = []"
    by blast
  with falsy id_column_Clients_1 show ?thesis by blast
qed

section \<open>What \<^verbatim>\<open>JSON.stringify\<close> writes, \<^verbatim>\<open>JSON.parse\<close> reads\<close>

lemma hex_digit_char_ok:
  "n < 16 \<Longrightarrow> is_hex_digit (hex_digit_char n) \<and> hex_val (hex_digit_char n) = n"
  by (auto simp: hex_digit_char_def is_hex_digit_def hex_val_def is_digit_def Let_def)

lemma zero_hex: "is_hex_digit CHR ''0'' \<and> hex_val CHR ''0'' = 0"
  by (simp add: is_hex_digit_def hex_val_def is_digit_def)

lemma json_string_body_u:
  "is_hex_digit h1 \<Longrightarrow> is_hex_digit h2 \<Longrightarrow> is_hex_digit h3 \<Longrightarrow> is_hex_digit h4 \<Longrightarrow>
   json_string_body (CHR 0x5C # CHR ''u'' # h1 # h2 # h3 # h4 # s) =
     (case json_string_body s of
        None \<Rightarrow> None
      | Some (t, r) \<Rightarrow> Some (unit_char (digits_val 16 (map hex_val [h1, h2, h3, h4])) # t, r))"
  by simp

lemma json_string_body_control:
  assumes "(of_char c :: nat) < 32"
  shows "json_string_body
           (CHR 0x5C # CHR ''u'' # CHR ''0'' # CHR ''0'' # hex_digit_char (of_char c div 16)
              # hex_digit_char (of_char c mod 16) # s) =
         (case json_string_body s of None \<Rightarrow> None | Some (t, r) \<Rightarrow> Some (c # t, r))"
proof -
  let ?n = "of_char c :: nat"
  have lt: "?n div 16 < 16" "?n mod 16 < 16" using assms by auto
  have h: "is_hex_digit (hex_digit_char (?n div 16))" "is_hex_digit (hex_digit_char (?n mod 16))"
          "hex_val (hex_digit_char (?n div 16)) = ?n div 16"
          "hex_val (hex_digit_char (?n mod 16)) = ?n mod 16"
    using hex_digit_char_ok [OF lt(1)] hex_digit_char_ok [OF lt(2)] by simp_all
  have z: "is_hex_digit CHR ''0''" "hex_val CHR ''0'' = 0" using zero_hex by simp_all
  have "digits_val 16 (map hex_val [CHR ''0'', CHR ''0'', hex_digit_char (?n div 16),
                                    hex_digit_char (?n mod 16)]) = ?n"
    by (simp add: digits_val_def h z)
  moreover have "unit_char ?n = c" using assms by (simp add: unit_char_def)
  ultimately show ?thesis
    by (simp only: json_string_body_u [OF z(1) z(1) h(1) h(2)])
qed

lemma json_string_body_escape:
  "json_string_body (json_escape c @ s) =
     (case json_string_body s of None \<Rightarrow> None | Some (t, r) \<Rightarrow> Some (c # t, r))"
proof -
  consider "c = CHR 0x22" | "c = CHR 0x5C" | "c = CHR 0x08" | "c = CHR 0x0C" | "c = CHR 0x0A"
    | "c = CHR 0x0D" | "c = CHR 0x09"
    | "c \<notin> {CHR 0x22, CHR 0x5C, CHR 0x08, CHR 0x0C, CHR 0x0A, CHR 0x0D, CHR 0x09}"
      "(of_char c :: nat) < 32"
    | "c \<notin> {CHR 0x22, CHR 0x5C, CHR 0x08, CHR 0x0C, CHR 0x0A, CHR 0x0D, CHR 0x09}"
      "\<not> (of_char c :: nat) < 32"
    by blast
  then show ?thesis
  proof cases
    case 8
    then have "json_escape c = [CHR 0x5C, CHR ''u'', CHR ''0'', CHR ''0'',
         hex_digit_char (of_char c div 16), hex_digit_char (of_char c mod 16)]"
      by (simp add: json_escape_def)
    then show ?thesis using json_string_body_control [OF 8(2), of s] by simp
  next
    case 9
    then have "json_escape c = [c]" by (simp add: json_escape_def)
    with 9 show ?thesis by (simp split: option.splits)
  qed (simp_all add: json_escape_def simple_escape_def split: option.splits)
qed

lemma json_string_body_quote:
  "json_string_body (concat (map json_escape t) @ CHR 0x22 # rest) = Some (t, rest)"
  by (induction t) (simp_all add: json_string_body_escape)

lemma json_value_string:
  "json_value (json_quote t @ rest) = Some (VStr t, rest)"
  by (subst json_value.simps)
     (simp add: json_quote_def skip_ws_def json_ws_def json_string_body_quote)

lemma skip_ws_quote [simp]: "skip_ws (CHR 0x22 # s) = CHR 0x22 # s"
  by (simp add: skip_ws_def json_ws_def)

lemma skip_ws_colon [simp]: "skip_ws (CHR '':'' # s) = CHR '':'' # s"
  by (simp add: skip_ws_def json_ws_def)

lemma skip_ws_brace [simp]: "skip_ws (CHR ''}'' # s) = CHR ''}'' # s"
  by (simp add: skip_ws_def json_ws_def)

lemma json_members_single:
  assumes "json_value rest = Some (v, CHR ''}'' # r)" "Suc (length r) < length rest"
  shows "json_members (json_quote k @ CHR '':'' # rest) = Some ([(k, v)], r)"
proof -
  have s_eq: "json_quote k @ CHR '':'' # rest =
                CHR 0x22 # (concat (map json_escape k) @ CHR 0x22 # CHR '':'' # rest)"
    by (simp add: json_quote_def)
  show ?thesis
    unfolding s_eq
    by (subst json_members.simps) (simp add: json_string_body_quote assms)
qed

lemma skip_ws_lbrace [simp]: "skip_ws (CHR ''{'' # s) = CHR ''{'' # s"
  by (simp add: skip_ws_def json_ws_def)

lemma json_value_object:
  assumes "json_members (CHR 0x22 # body) = Some (kvs, r)"
  shows "json_value (CHR ''{'' # CHR 0x22 # body) = Some (VObj (object_of kvs), r)"
  by (subst json_value.simps) (simp add: assms)

lemma json_parse_stringify_message:
  "json_parse (stringify_message t) = Some (VObj [(''message'', VStr t)])"
proof -
  have len: "Suc (length ([] :: string)) < length (json_quote t @ ''}'')"
    by (simp add: json_quote_def)
  have members: "json_members (json_quote ''message'' @ CHR '':'' # json_quote t @ ''}'') =
                   Some ([(''message'', VStr t)], [])"
    by (rule json_members_single [OF json_value_string len])
  have s_eq: "stringify_message t =
                CHR ''{'' # CHR 0x22 # (concat (map json_escape ''message'') @
                   CHR 0x22 # CHR '':'' # json_quote t @ ''}'')"
    by (simp add: stringify_message_def json_quote_def)
  have q: "json_quote ''message'' @ CHR '':'' # json_quote t @ ''}'' =
             CHR 0x22 # (concat (map json_escape ''message'') @
                CHR 0x22 # CHR '':'' # json_quote t @ ''}'')"
    by (simp add: json_quote_def)
  have "json_value (stringify_message t) = Some (VObj (object_of [(''message'', VStr t)]), [])"
    unfolding s_eq by (rule json_value_object) (use members q in simp)
  then show ?thesis by (simp add: json_parse_def skip_ws_def object_of_def)
qed

section \<open>Rows, indices and errors\<close>

lemma get_prop_set_prop: "get_prop (set_prop r k v) k = v"
  by (induction r) (auto simp: get_prop_def)

lemma get_prop_set_prop_other: "k' \<noteq> k \<Longrightarrow> get_prop (set_prop r k v) k' = get_prop r k'"
  by (induction r) (auto simp: get_prop_def)

lemma keys_set_prop: "map_of r k \<noteq> None \<Longrightarrow> map fst (set_prop r k v) = map fst r"
  by (induction r) auto

text \<open>
  A loop whose body, for row \<open>j\<close>, pushes only errors with row index \<open>j\<close>: the errors
  with a given row index are what the body pushed for that row.
\<close>

lemma rowIndex_enumerate_set:
  assumes "\<And>j row e. e \<in> set (f j row) \<Longrightarrow> rowIndex e = int j"
  shows "e \<in> set (concat (map (\<lambda>(j, row). f j row) (enumerate n data))) \<Longrightarrow> int n \<le> rowIndex e"
proof (induction data arbitrary: n)
  case Nil
  then show ?case by simp
next
  case (Cons x xs)
  then show ?case using assms by fastforce
qed

lemma filter_rowIndex_enumerate:
  assumes idx: "\<And>j row e. e \<in> set (f j row) \<Longrightarrow> rowIndex e = int j"
  shows "filter (\<lambda>e. rowIndex e = int (n + i))
           (concat (map (\<lambda>(j, row). f j row) (enumerate n data))) =
         (if i < length data then f (n + i) (data ! i) else [])"
proof (induction data arbitrary: n i)
  case Nil
  then show ?case by simp
next
  case (Cons x xs)
  show ?case
  proof (cases i)
    case 0
    have here: "filter (\<lambda>e. rowIndex e = int n) (f n x) = f n x"
      using idx by (simp add: filter_id_conv)
    have later: "filter (\<lambda>e. rowIndex e = int n)
                   (concat (map (\<lambda>(j, row). f j row) (enumerate (Suc n) xs))) = []"
      using rowIndex_enumerate_set [of f _ "Suc n" xs, OF idx] by (fastforce simp: filter_empty_conv)
    from 0 here later show ?thesis by simp
  next
    case (Suc i')
    have here: "filter (\<lambda>e. rowIndex e = int (n + i)) (f n x) = []"
      using idx Suc by (fastforce simp: filter_empty_conv)
    from Cons.IH [of "Suc n" i'] here Suc show ?thesis by simp
  qed
qed

section \<open>The JSON attributes of client rows\<close>

lemma attributes_row_rowIndex:
  "e \<in> set (snd (attributes_row sheet row j)) \<Longrightarrow> rowIndex e = int j"
  by (auto simp: attributes_row_def invalid_json_error_def Let_def
           split: jsval.splits option.splits if_splits)

lemma validateAttributesJSON_rows:
  assumes "getBaseSheetName sheet = ''Clients''" "i < length data"
  shows "fst (validateAttributesJSON data sheet) ! i = fst (attributes_row sheet (data ! i) i)"
  using assms by (simp add: validateAttributesJSON_def Let_def nth_enumerate_eq)

lemma validateAttributesJSON_length:
  "length (fst (validateAttributesJSON data sheet)) = length data"
  by (simp add: validateAttributesJSON_def Let_def)

lemma validateAttributesJSON_errors:
  assumes "getBaseSheetName sheet = ''Clients''" "i < length data"
  shows "filter (\<lambda>e. rowIndex e = int i) (snd (validateAttributesJSON data sheet)) =
         snd (attributes_row sheet (data ! i) i)"
proof -
  have "snd (validateAttributesJSON data sheet) =
          concat (map (\<lambda>(j, row). snd (attributes_row sheet row j)) (enumerate 0 data))"
    using assms(1) by (simp add: validateAttributesJSON_def Let_def case_prod_unfold o_def)
  then show ?thesis
    using filter_rowIndex_enumerate
            [of "\<lambda>j row. snd (attributes_row sheet row j)" 0 i data, OF attributes_row_rowIndex]
          assms(2)
    by simp
qed

text \<open>
  C4 (as amended). Take a client row whose \<^verbatim>\<open>AttributesJSON\<close> is a non-empty string that
  does not parse as JSON. If the trimmed text starts with neither a brace nor a bracket and
  contains no colon, the cell is replaced by the JSON text of the object with the one
  member \<^verbatim>\<open>message\<close> holding the trimmed text, and no error is emitted for the row;
  otherwise the row stays as it is and exactly one error is emitted for it.
\<close>

theorem attributes_json_auto_repair:
  assumes "getBaseSheetName sheet = ''Clients''" and "i < length data"
    and "get_prop (data ! i) ''AttributesJSON'' = VStr s" and "s \<noteq> []"
    and "json_parse s = None"
  shows "(simple_sentence (trim s) \<longrightarrow>
            fst (validateAttributesJSON data sheet) ! i =
              set_prop (data ! i) ''AttributesJSON'' (VStr (stringify_message (trim s))) \<and>
            get_prop (fst (validateAttributesJSON data sheet) ! i) ''AttributesJSON'' =
              VStr (stringify_message (trim s)) \<and>
            json_parse (stringify_message (trim s)) = Some (VObj [(''message'', VStr (trim s))]) \<and>
            filter (\<lambda>e. rowIndex e = int i) (snd (validateAttributesJSON data sheet)) = []) \<and>
         (\<not> simple_sentence (trim s) \<longrightarrow>
            fst (validateAttributesJSON data sheet) ! i = data ! i \<and>
            filter (\<lambda>e. rowIndex e = int i) (snd (validateAttributesJSON data sheet)) =
              [invalid_json_error sheet i (VStr s)])"
proof -
  have row: "attributes_row sheet (data ! i) i =
               (if simple_sentence (trim s)
                then (set_prop (data ! i) ''AttributesJSON'' (VStr (stringify_message (trim s))), [])
                else (data ! i, [invalid_json_error sheet i (VStr s)]))"
    using assms(3-5) by (simp add: attributes_row_def Let_def)
  show ?thesis
    using validateAttributesJSON_rows [OF assms(1,2)] validateAttributesJSON_errors [OF assms(1,2)]
    by (simp add: row get_prop_set_prop json_parse_stringify_message)
qed

lemma json_parse_vip_customer: "json_parse ''vip customer'' = None"
  by code_simp

lemma json_parse_bad_json: "json_parse ''{bad json'' = None"
  by code_simp

lemma simple_sentence_vip_customer: "simple_sentence (trim ''vip customer'')"
  by code_simp

lemma not_simple_sentence_bad_json: "\<not> simple_sentence (trim ''{bad json'')"
  by code_simp

lemma trim_vip_customer: "trim ''vip customer'' = ''vip customer''"
  by code_simp

lemma stringify_message_vip_customer:
  "stringify_message ''vip customer'' = ''{\"message\":\"vip customer\"}''"
  by code_simp

text \<open>
  The two examples of the specification, as the two rows of a client sheet: the first cell
  becomes \<^verbatim>\<open>{"message":"vip customer"}\<close> without an error, the second stays and has
  one error.
\<close>

theorem attributes_json_auto_repair_witness:
  "fst (validateAttributesJSON
          [[(''AttributesJSON'', VStr ''vip customer'')], [(''AttributesJSON'', VStr ''{bad json'')]]
          ''Clients 1'') ! 0 =
     [(''AttributesJSON'', VStr ''{\"message\":\"vip customer\"}'')] \<and>
   filter (\<lambda>e. rowIndex e = 0)
     (snd (validateAttributesJSON
             [[(''AttributesJSON'', VStr ''vip customer'')],
              [(''AttributesJSON'', VStr ''{bad json'')]] ''Clients 1'')) = [] \<and>
   fst (validateAttributesJSON
          [[(''AttributesJSON'', VStr ''vip customer'')], [(''AttributesJSON'', VStr ''{bad json'')]]
          ''Clients 1'') ! 1 =
     [(''AttributesJSON'', VStr ''{bad json'')] \<and>
   filter (\<lambda>e. rowIndex e = 1)
     (snd (validateAttributesJSON
             [[(''AttributesJSON'', VStr ''vip customer'')],
              [(''AttributesJSON'', VStr ''{bad json'')]] ''Clients 1'')) =
     [invalid_json_error ''Clients 1'' 1 (VStr ''{bad json'')]"
proof -
  let ?data = "[[(''AttributesJSON'', VStr ''vip customer'')],
                [(''AttributesJSON'', VStr ''{bad json'')]]"
  have i0: "0 < length ?data" and i1: "1 < length ?data" by simp_all
  have g0: "get_prop (?data ! 0) ''AttributesJSON'' = VStr ''vip customer''"
    by (simp add: get_prop_def)
  have g1: "get_prop (?data ! 1) ''AttributesJSON'' = VStr ''{bad json''"
    by (simp add: get_prop_def)
  have ne0: "''vip customer'' \<noteq> []" and ne1: "''{bad json'' \<noteq> []" by simp_all
  note r0 = attributes_json_auto_repair
              [OF getBaseSheetName_Clients_1 i0 g0 ne0 json_parse_vip_customer,
               THEN conjunct1, rule_format, OF simple_sentence_vip_customer]
  note r1 = attributes_json_auto_repair
              [OF getBaseSheetName_Clients_1 i1 g1 ne1 json_parse_bad_json,
               THEN conjunct2, rule_format, OF not_simple_sentence_bad_json]
  have s0: "set_prop (?data ! 0) ''AttributesJSON''
              (VStr (stringify_message (trim ''vip customer''))) =
            [(''AttributesJSON'', VStr ''{\"message\":\"vip customer\"}'')]"
    by (simp add: trim_vip_customer stringify_message_vip_customer)
  have first: "fst (validateAttributesJSON ?data ''Clients 1'') ! 0 =
                 [(''AttributesJSON'', VStr ''{\"message\":\"vip customer\"}'')]"
    using r0 [THEN conjunct1] s0 by (rule trans)
  have first_err: "filter (\<lambda>e. rowIndex e = 0)
                     (snd (validateAttributesJSON ?data ''Clients 1'')) = []"
    using r0 [THEN conjunct2, THEN conjunct2, THEN conjunct2] by simp
  have second: "fst (validateAttributesJSON ?data ''Clients 1'') ! 1 =
                  [(''AttributesJSON'', VStr ''{bad json'')]"
    using r1 [THEN conjunct1] by simp
  have second_err: "filter (\<lambda>e. rowIndex e = 1)
                      (snd (validateAttributesJSON ?data ''Clients 1'')) =
                    [invalid_json_error ''Clients 1'' 1 (VStr ''{bad json'')]"
    using r1 [THEN conjunct2] by simp
  from first first_err second second_err show ?thesis by (intro conjI)
qed

text \<open>
  The claim as first stated asks for a text without any brace, bracket or colon. The code
  looks for a brace or bracket at the start only: the text \<^verbatim>\<open>vip {gold} customer\<close> does
  not parse, contains a brace, and is repaired without an error.
\<close>

theorem attributes_json_counterexample:
  "json_parse ''vip {gold} customer'' = None \<and>
   CHR ''{'' \<in> set (trim ''vip {gold} customer'') \<and>
   validateAttributesJSON [[(''AttributesJSON'', VStr ''vip {gold} customer'')]] ''Clients'' =
     ([[(''AttributesJSON'', VStr ''{\"message\":\"vip {gold} customer\"}'')]], [])"
  by code_simp

section \<open>The number-sequence normalizers\<close>

lemma split_on_no_separator: "c \<notin> set q \<Longrightarrow> split_on c q = [q]"
  by (induction q) auto

lemma split_on_append: "c \<notin> set p \<Longrightarrow> split_on c (p @ c # q) = p # split_on c q"
  by (induction p) auto

lemma split_on_head: "\<exists>rest. split_on c s = takeWhile (\<lambda>x. x \<noteq> c) s # rest"
  by (induction s) (auto split: list.splits)

text \<open>The first two pieces of a string that holds the separator.\<close>

lemma split_on_first_two:
  assumes "c \<in> set s"
  shows "\<exists>rest. split_on c s =
           takeWhile (\<lambda>x. x \<noteq> c) s
           # takeWhile (\<lambda>x. x \<noteq> c) (tl (dropWhile (\<lambda>x. x \<noteq> c) s)) # rest"
proof -
  let ?p = "takeWhile (\<lambda>x. x \<noteq> c) s"
  let ?d = "dropWhile (\<lambda>x. x \<noteq> c) s"
  from assms have ne: "?d \<noteq> []" by (auto simp: dropWhile_eq_Nil_conv)
  then have "hd ?d = c" using hd_dropWhile [of "\<lambda>x. x \<noteq> c" s] by simp
  with ne have d: "?d = c # tl ?d" by (cases ?d) simp_all
  have "s = ?p @ ?d" by simp
  with d have s: "s = ?p @ c # tl ?d" by metis
  have notin: "c \<notin> set ?p" by (auto dest: set_takeWhileD)
  have "split_on c (?p @ c # tl ?d) = ?p # split_on c (tl ?d)"
    using notin by (rule split_on_append)
  with s have "split_on c s = ?p # split_on c (tl ?d)" by metis
  with split_on_head [of c "tl ?d"] show ?thesis by auto
qed

lemma array_from_range_ints:
  assumes "a \<le> b" "b - a < 2 ^ 32 - 1" "\<bar>a\<bar> \<le> 2 ^ 53" "\<bar>b\<bar> \<le> 2 ^ 53"
  shows "array_from_range (Finite (of_int a)) (Finite (of_int b)) =
           Some (map (\<lambda>i. VNum (Finite (of_int (a + int i)))) [0..<nat (b - a + 1)])"
proof -
  have "\<bar>b - a\<bar> \<le> 2 ^ 53" using assms(1,2) by simp
  then have sub: "num_sub (Finite (of_int b)) (Finite (of_int a)) = Finite (of_int (b - a))"
    by (rule num_sub_int)
  have "\<bar>b - a + 1\<bar> \<le> 2 ^ 53" using assms(1,2) by simp
  then have "num_add (Finite (of_int (b - a))) (Finite (of_int 1)) = Finite (of_int (b - a + 1))"
    by (rule num_add_int)
  then have diff: "num_add (num_sub (Finite (of_int b)) (Finite (of_int a))) (Finite 1) =
                Finite (of_int (b - a + 1))"
    unfolding sub by simp
  have "b - a + 1 \<le> 2 ^ 53 - 1" using assms by simp
  then have len: "to_length (Finite (of_int (b - a + 1))) = b - a + 1"
    using assms(1) by (simp del: of_int_add of_int_diff)
  have small: "\<not> (2 ^ 32 - 1 < b - a + 1)"
    using assms by simp
  have element: "num_add (Finite (of_int a)) (Finite (of_nat i)) = Finite (of_int (a + int i))"
    if "i \<in> set [0..<nat (b - a + 1)]" for i
  proof -
    from that have "a + int i \<le> b" by auto
    with assms(3,4) have "\<bar>a + int i\<bar> \<le> 2 ^ 53" by simp
    then have "num_add (Finite (of_int a)) (Finite (of_int (int i))) = Finite (of_int (a + int i))"
      by (rule num_add_int)
    then show ?thesis by simp
  qed
  have "map (\<lambda>i. VNum (num_add (Finite (of_int a)) (Finite (of_nat i)))) [0..<nat (b - a + 1)] =
        map (\<lambda>i. VNum (Finite (of_int (a + int i)))) [0..<nat (b - a + 1)]"
    by (rule map_cong [OF refl]) (simp only: element)
  then show ?thesis
    unfolding array_from_range_def diff len Let_def using small by simp
qed

lemma parseNumberArray_hyphen:
  assumes "CHR ''-'' \<in> set s"
  shows "parseNumberArray (VStr s) =
           (case array_from_range
                   (str_to_num (takeWhile (\<lambda>c. c \<noteq> CHR ''-'') s))
                   (str_to_num (takeWhile (\<lambda>c. c \<noteq> CHR ''-'')
                                  (tl (dropWhile (\<lambda>c. c \<noteq> CHR ''-'') s)))) of
              Some xs \<Rightarrow> VArr xs
            | None \<Rightarrow> VArr [])"
proof -
  from split_on_first_two [OF assms] obtain rest where
    "split_on CHR ''-'' s =
       takeWhile (\<lambda>c. c \<noteq> CHR ''-'') s
       # takeWhile (\<lambda>c. c \<noteq> CHR ''-'') (tl (dropWhile (\<lambda>c. c \<noteq> CHR ''-'') s)) # rest"
    by blast
  then show ?thesis using assms by (simp add: parseNumberArray_def)
qed

lemma parseNumberArray_range:
  assumes "CHR ''-'' \<notin> set p" "CHR ''-'' \<notin> set q"
    and "str_to_num p = Finite (of_int a)" "str_to_num q = Finite (of_int b)"
    and "\<bar>a\<bar> \<le> 2 ^ 53" "\<bar>b\<bar> \<le> 2 ^ 53" "a \<le> b" "b - a < 2 ^ 32 - 1"
  shows "parseNumberArray (VStr (p @ ''-'' @ q)) =
           VArr (map (\<lambda>i. VNum (Finite (of_int (a + int i)))) [0..<nat (b - a + 1)])"
proof -
  have "split_on CHR ''-'' (p @ ''-'' @ q) = [p, q]"
    using assms(1,2) by (simp add: split_on_append split_on_no_separator)
  then show ?thesis
    using assms(3,4) array_from_range_ints [OF assms(7,8,5,6)]
    by (simp add: parseNumberArray_def)
qed

lemma parseNumberArray_examples:
  "parseNumberArray (VStr ''1-3'') = VArr [VNum (Finite 1), VNum (Finite 2), VNum (Finite 3)]"
  "parseNumberArray (VStr ''[2,4,5]'') = VArr [VNum (Finite 2), VNum (Finite 4), VNum (Finite 5)]"
  "parseNumberArray (VStr ''2,4,5'') = VArr []"
  "parseNumberArray (VStr ''not-a-number'') = VArr []"
  "parseNumberArray (VStr ''1-3-5'') = VArr [VNum (Finite 1), VNum (Finite 2), VNum (Finite 3)]"
  "parseNumberArray (VStr ''3-1'') = VArr []"
  "parseNumberArray (VStr ''[1,-2]'') = VArr []"
  by code_simp+

lemma normalizePreferredPhases_examples:
  "normalizePreferredPhases ''1-3'' = Inr (VArr [VNum (Finite 1), VNum (Finite 2), VNum (Finite 3)])"
  "normalizePreferredPhases ''[2,4,5]'' =
     Inr (VArr [VNum (Finite 2), VNum (Finite 4), VNum (Finite 5)])"
  "normalizePreferredPhases ''2,4,5'' =
     Inr (VArr [VNum (Finite 2), VNum (Finite 4), VNum (Finite 5)])"
  "normalizePreferredPhases ''not-a-number'' = Inr (VArr [])"
  "normalizePreferredPhases ''0-4294967295'' = Inl RangeError"
  by code_simp+

lemma normalizePreferredPhases_range:
  "is_range n1 \<Longrightarrow>
   normalizePreferredPhases n1 =
     (case map str_to_num (split_on CHR ''-'' n1) of
        start # end # _ \<Rightarrow>
          (case array_from_range start end of
             Some xs \<Rightarrow> Inr (VArr xs)
           | None \<Rightarrow> Inl RangeError)
      | _ \<Rightarrow> Inr (VArr []))"
proof -
  assume r: "is_range n1"
  then have "n1 \<noteq> []" by (auto simp: is_range_def)
  with r show ?thesis by (simp add: normalizePreferredPhases_def)
qed

lemma normalizePreferredPhases_json:
  "n2 \<noteq> [] \<Longrightarrow> \<not> is_range n2 \<Longrightarrow> starts_with ''['' (trim n2) \<Longrightarrow>
   normalizePreferredPhases n2 = Inr (case json_parse n2 of Some v \<Rightarrow> v | None \<Rightarrow> VArr [])"
  by (simp add: normalizePreferredPhases_def split: option.splits)

lemma normalizePreferredPhases_list:
  "n3 \<noteq> [] \<Longrightarrow> \<not> is_range n3 \<Longrightarrow> \<not> starts_with ''['' (trim n3) \<Longrightarrow>
   normalizePreferredPhases n3 =
     Inr (VArr (map VNum (filter (\<lambda>v. v \<noteq> NaN)
                  (map (\<lambda>v. str_to_num (trim v)) (split_on CHR '','' n3)))))"
  by (simp add: normalizePreferredPhases_def)

text \<open>
  C2 (as amended). \<^verbatim>\<open>parseNumberArray\<close>, the normalizer of the validators, never throws and
  returns \<open>[1,2,3]\<close> on \<^verbatim>\<open>1-3\<close>, \<open>[2,4,5]\<close> on \<^verbatim>\<open>[2,4,5]\<close>, and the empty array on
  \<^verbatim>\<open>2,4,5\<close> and on \<^verbatim>\<open>not-a-number\<close>. A string with a hyphen never reaches \<^verbatim>\<open>JSON.parse\<close>:
  its result is the range built from the numbers of its first two pieces, the empty array
  if that range has more than \<open>2^32 - 1\<close> elements (so \<^verbatim>\<open>1-3-5\<close> gives \<open>[1,2,3]\<close>, and
  \<^verbatim>\<open>3-1\<close> and \<^verbatim>\<open>[1,-2]\<close> give the empty array); when the string is \<open>p-q\<close> with one hyphen
  and the pieces are integers \<open>a \<le> b\<close> of magnitude at most \<open>2^53\<close> less than \<open>2^32 - 1\<close>
  apart, the result is \<open>a, ..., b\<close>. A string without a hyphen is read as JSON, a failure
  giving the empty array; there is no comma-list branch. The precedence of the range form,
  then a text starting with a bracket read as JSON, then a comma-separated list with the
  non-numeric tokens dropped, is that of \<^verbatim>\<open>normalizePreferredPhases\<close>, which returns
  \<open>[1,2,3]\<close>, \<open>[2,4,5]\<close>, \<open>[2,4,5]\<close> and \<open>[]\<close> on the four inputs; in its range form a
  range of more than \<open>2^32 - 1\<close> elements throws a \<^verbatim>\<open>RangeError\<close>, as on \<^verbatim>\<open>0-4294967295\<close>.
\<close>

theorem number_sequence_normalizers:
  "parseNumberArray (VStr ''1-3'') = VArr [VNum (Finite 1), VNum (Finite 2), VNum (Finite 3)] \<and>
   parseNumberArray (VStr ''[2,4,5]'') = VArr [VNum (Finite 2), VNum (Finite 4), VNum (Finite 5)] \<and>
   parseNumberArray (VStr ''2,4,5'') = VArr [] \<and>
   parseNumberArray (VStr ''not-a-number'') = VArr [] \<and>
   parseNumberArray (VStr ''1-3-5'') = VArr [VNum (Finite 1), VNum (Finite 2), VNum (Finite 3)] \<and>
   parseNumberArray (VStr ''3-1'') = VArr [] \<and>
   parseNumberArray (VStr ''[1,-2]'') = VArr [] \<and>
   (CHR ''-'' \<in> set r \<longrightarrow>
      parseNumberArray (VStr r) =
        (case array_from_range
                (str_to_num (takeWhile (\<lambda>c. c \<noteq> CHR ''-'') r))
                (str_to_num (takeWhile (\<lambda>c. c \<noteq> CHR ''-'')
                               (tl (dropWhile (\<lambda>c. c \<noteq> CHR ''-'') r)))) of
           Some xs \<Rightarrow> VArr xs
         | None \<Rightarrow> VArr [])) \<and>
   (CHR ''-'' \<notin> set p \<and> CHR ''-'' \<notin> set q \<and> str_to_num p = Finite (of_int a) \<and>
    str_to_num q = Finite (of_int b) \<and> \<bar>a\<bar> \<le> 2 ^ 53 \<and> \<bar>b\<bar> \<le> 2 ^ 53 \<and>
    a \<le> b \<and> b - a < 2 ^ 32 - 1 \<longrightarrow>
      parseNumberArray (VStr (p @ ''-'' @ q)) =
        VArr (map (\<lambda>i. VNum (Finite (of_int (a + int i)))) [0..<nat (b - a + 1)])) \<and>
   (CHR ''-'' \<notin> set j \<longrightarrow>
      parseNumberArray (VStr j) = (case json_parse j of Some v \<Rightarrow> v | None \<Rightarrow> VArr [])) \<and>
   normalizePreferredPhases ''1-3'' =
     Inr (VArr [VNum (Finite 1), VNum (Finite 2), VNum (Finite 3)]) \<and>
   normalizePreferredPhases ''[2,4,5]'' =
     Inr (VArr [VNum (Finite 2), VNum (Finite 4), VNum (Finite 5)]) \<and>
   normalizePreferredPhases ''2,4,5'' =
     Inr (VArr [VNum (Finite 2), VNum (Finite 4), VNum (Finite 5)]) \<and>
   normalizePreferredPhases ''not-a-number'' = Inr (VArr []) \<and>
   normalizePreferredPhases ''0-4294967295'' = Inl RangeError \<and>
   (is_range n1 \<longrightarrow>
      normalizePreferredPhases n1 =
        (case map str_to_num (split_on CHR ''-'' n1) of
           start # end # _ \<Rightarrow>
             (case array_from_range start end of
                Some xs \<Rightarrow> Inr (VArr xs)
              | None \<Rightarrow> Inl RangeError)
         | _ \<Rightarrow> Inr (VArr []))) \<and>
   (n2 \<noteq> [] \<and> \<not> is_range n2 \<and> starts_with ''['' (trim n2) \<longrightarrow>
      normalizePreferredPhases n2 =
        Inr (case json_parse n2 of Some v \<Rightarrow> v | None \<Rightarrow> VArr [])) \<and>
   (n3 \<noteq> [] \<and> \<not> is_range n3 \<and> \<not> starts_with ''['' (trim n3) \<longrightarrow>
      normalizePreferredPhases n3 =
        Inr (VArr (map VNum (filter (\<lambda>v. v \<noteq> NaN)
                     (map (\<lambda>v. str_to_num (trim v)) (split_on CHR '','' n3))))))"
proof -
  have json: "parseNumberArray (VStr j) = (case json_parse j of Some v \<Rightarrow> v | None \<Rightarrow> VArr [])"
    if "CHR ''-'' \<notin> set j"
    using that by (simp add: parseNumberArray_def)
  show ?thesis
    using parseNumberArray_examples normalizePreferredPhases_examples
          parseNumberArray_hyphen [of r] parseNumberArray_range [of p q a b] json
          normalizePreferredPhases_range [of n1] normalizePreferredPhases_json [of n2]
          normalizePreferredPhases_list [of n3]
    by blast
qed

lemma normalizer_inputs:
  "CHR ''-'' \<in> set ''7-9-11''"
  "CHR ''-'' \<notin> set ''10''" "CHR ''-'' \<notin> set ''12''"
  "str_to_num ''10'' = Finite (of_int 10)" "str_to_num ''12'' = Finite (of_int 12)"
  "\<bar>10 :: int\<bar> \<le> 2 ^ 53" "\<bar>12 :: int\<bar> \<le> 2 ^ 53" "(10 :: int) \<le> 12"
  "(12 :: int) - 10 < 2 ^ 32 - 1"
  "CHR ''-'' \<notin> set ''[1, 2]''"
  "is_range ''4 - 6''"
  "'' [7]'' \<noteq> []" "\<not> is_range '' [7]''" "starts_with ''['' (trim '' [7]'')"
  "''2, x, 5'' \<noteq> []" "\<not> is_range ''2, x, 5''" "\<not> starts_with ''['' (trim ''2, x, 5'')"
  by code_simp+

lemma normalizer_values:
  "(case array_from_range
           (str_to_num (takeWhile (\<lambda>c. c \<noteq> CHR ''-'') ''7-9-11''))
           (str_to_num (takeWhile (\<lambda>c. c \<noteq> CHR ''-'')
                          (tl (dropWhile (\<lambda>c. c \<noteq> CHR ''-'') ''7-9-11'')))) of
      Some xs \<Rightarrow> VArr xs
    | None \<Rightarrow> VArr []) = VArr [VNum (Finite 7), VNum (Finite 8), VNum (Finite 9)]"
  "VArr (map (\<lambda>i. VNum (Finite (of_int (10 + int i)))) [0..<nat (12 - 10 + 1)]) =
     VArr [VNum (Finite 10), VNum (Finite 11), VNum (Finite 12)]"
  "(case json_parse ''[1, 2]'' of Some v \<Rightarrow> v | None \<Rightarrow> VArr []) =
     VArr [VNum (Finite 1), VNum (Finite 2)]"
  "(case map str_to_num (split_on CHR ''-'' ''4 - 6'') of
      start # end # _ \<Rightarrow>
        (case array_from_range start end of
           Some xs \<Rightarrow> Inr (VArr xs)
         | None \<Rightarrow> Inl RangeError)
    | _ \<Rightarrow> Inr (VArr [])) = Inr (VArr [VNum (Finite 4), VNum (Finite 5), VNum (Finite 6)])"
  "(case json_parse '' [7]'' of Some v \<Rightarrow> v | None \<Rightarrow> VArr []) = VArr [VNum (Finite 7)]"
  "VArr (map VNum (filter (\<lambda>v. v \<noteq> NaN)
           (map (\<lambda>v. str_to_num (trim v)) (split_on CHR '','' ''2, x, 5'')))) =
     VArr [VNum (Finite 2), VNum (Finite 5)]"
  by code_simp+

text \<open>
  The six general cases on inputs of their own: a string with two hyphens, the range
  \<^verbatim>\<open>10-12\<close> and a JSON text through \<^verbatim>\<open>parseNumberArray\<close>; a range with blanks, a JSON text
  behind a blank and a comma list with a non-numeric token through
  \<^verbatim>\<open>normalizePreferredPhases\<close>.
\<close>

theorem number_sequence_normalizers_witness:
  "parseNumberArray (VStr ''7-9-11'') = VArr [VNum (Finite 7), VNum (Finite 8), VNum (Finite 9)] \<and>
   parseNumberArray (VStr ''10-12'') = VArr [VNum (Finite 10), VNum (Finite 11), VNum (Finite 12)] \<and>
   parseNumberArray (VStr ''[1, 2]'') = VArr [VNum (Finite 1), VNum (Finite 2)] \<and>
   normalizePreferredPhases ''4 - 6'' =
     Inr (VArr [VNum (Finite 4), VNum (Finite 5), VNum (Finite 6)]) \<and>
   normalizePreferredPhases '' [7]'' = Inr (VArr [VNum (Finite 7)]) \<and>
   normalizePreferredPhases ''2, x, 5'' = Inr (VArr [VNum (Finite 2), VNum (Finite 5)])"
proof -
  note all = number_sequence_normalizers
    [of "''7-9-11''" "''10''" "''12''" 10 12 "''[1, 2]''" "''4 - 6''" "'' [7]''" "''2, x, 5''"]
  from all normalizer_inputs have
    "parseNumberArray (VStr ''7-9-11'') =
       (case array_from_range
               (str_to_num (takeWhile (\<lambda>c. c \<noteq> CHR ''-'') ''7-9-11''))
               (str_to_num (takeWhile (\<lambda>c. c \<noteq> CHR ''-'')
                              (tl (dropWhile (\<lambda>c. c \<noteq> CHR ''-'') ''7-9-11'')))) of
          Some xs \<Rightarrow> VArr xs
        | None \<Rightarrow> VArr [])"
    by blast
  then have w1: "parseNumberArray (VStr ''7-9-11'') =
                   VArr [VNum (Finite 7), VNum (Finite 8), VNum (Finite 9)]"
    by (simp only: normalizer_values)
  from all normalizer_inputs have
    "parseNumberArray (VStr (''10'' @ ''-'' @ ''12'')) =
       VArr (map (\<lambda>i. VNum (Finite (of_int (10 + int i)))) [0..<nat (12 - 10 + 1)])"
    by blast
  then have w2: "parseNumberArray (VStr ''10-12'') =
                   VArr [VNum (Finite 10), VNum (Finite 11), VNum (Finite 12)]"
    by (simp only: normalizer_values append.simps)
  from all normalizer_inputs have
    "parseNumberArray (VStr ''[1, 2]'') =
       (case json_parse ''[1, 2]'' of Some v \<Rightarrow> v | None \<Rightarrow> VArr [])"
    by blast
  then have w3: "parseNumberArray (VStr ''[1, 2]'') = VArr [VNum (Finite 1), VNum (Finite 2)]"
    by (simp only: normalizer_values)
  from all normalizer_inputs have
    "normalizePreferredPhases ''4 - 6'' =
       (case map str_to_num (split_on CHR ''-'' ''4 - 6'') of
          start # end # _ \<Rightarrow>
            (case array_from_range start end of
               Some xs \<Rightarrow> Inr (VArr xs)
             | None \<Rightarrow> Inl RangeError)
        | _ \<Rightarrow> Inr (VArr []))"
    by blast
  then have w4: "normalizePreferredPhases ''4 - 6'' =
                   Inr (VArr [VNum (Finite 4), VNum (Finite 5), VNum (Finite 6)])"
    by (simp only: normalizer_values)
  from all normalizer_inputs have
    "normalizePreferredPhases '' [7]'' =
       Inr (case json_parse '' [7]'' of Some v \<Rightarrow> v | None \<Rightarrow> VArr [])"
    by blast
  then have w5: "normalizePreferredPhases '' [7]'' = Inr (VArr [VNum (Finite 7)])"
    by (simp only: normalizer_values)
  from all normalizer_inputs have
    "normalizePreferredPhases ''2, x, 5'' =
       Inr (VArr (map VNum (filter (\<lambda>v. v \<noteq> NaN)
                    (map (\<lambda>v. str_to_num (trim v)) (split_on CHR '','' ''2, x, 5'')))))"
    by blast
  then have w6: "normalizePreferredPhases ''2, x, 5'' =
                   Inr (VArr [VNum (Finite 2), VNum (Finite 5)])"
    by (simp only: normalizer_values)
  from w1 w2 w3 w4 w5 w6 show ?thesis by (intro conjI)
qed

text \<open>
  The claim as first stated has \<^verbatim>\<open>parseNumberArray\<close> read a bare comma-separated list.
  It hands \<^verbatim>\<open>2,4,5\<close> to \<^verbatim>\<open>JSON.parse\<close>, which rejects it.
\<close>

theorem number_sequence_counterexample:
  "parseNumberArray (VStr ''2,4,5'') = VArr [] \<and> json_parse ''2,4,5'' = None"
  by code_simp

section \<open>Range checks\<close>



















section \<open>Phase-slot saturation\<close>








lemma get_or_zero_absent:
  "list_all is_primitive (map fst m) \<Longrightarrow> p \<notin> set (map fst m) \<Longrightarrow> get_or_zero m p = Finite 0"
  by (induction m) (auto simp: get_or_zero_def same_key_def)







lemma typed_worker_load:
  "typed_worker w \<Longrightarrow> is_count (to_number (get_prop w ''MaxLoadPerPhase''))"
  by (simp add: typed_worker_def)























section \<open>What a run writes\<close>

lemma attributes_row_fst: "fst (attributes_row sheet row i) = repaired row"
  by (auto simp: attributes_row_def repaired_def repair_of_def Let_def
           split: jsval.splits option.splits)

lemma validateAttributesJSON_fst:
  "fst (validateAttributesJSON data sheet) =
     (if getBaseSheetName sheet = ''Clients'' then map repaired data else data)"
proof -
  have "map (\<lambda>x. fst (case x of (index, row) \<Rightarrow> attributes_row sheet row index)) (enumerate n data) =
        map repaired data" for n
    by (induction data arbitrary: n) (simp_all add: attributes_row_fst)
  then show ?thesis
    by (simp add: validateAttributesJSON_def Let_def o_def)
qed

lemma validateRequiredColumns_Clients:
  "getBaseSheetName sheet = ''Clients'' \<Longrightarrow> \<exists>errs. validateRequiredColumns sheet data = Inr errs"
  by (cases data) (auto simp: validateRequiredColumns_def REQUIRED_COLUMNS_def Let_def)

lemma validate_sheet_fst: "fst (validate_sheet sheet data) = snd (repaired_sheet (sheet, data))"
proof (cases "getBaseSheetName sheet = ''Clients''")
  case True
  then obtain errs where "validateRequiredColumns sheet data = Inr errs"
    using validateRequiredColumns_Clients by blast
  with True show ?thesis
    by (simp add: validate_sheet_def Let_def repaired_sheet_def validateAttributesJSON_fst)
next
  case False
  then show ?thesis
    by (auto simp: validate_sheet_def Let_def repaired_sheet_def split: sum.splits)
qed

lemma frame_sheet_refl: "frame_sheet entry entry"
  by (simp add: frame_sheet_def list_all2_same)

lemma frame_sheet_repaired: "frame_sheet entry (repaired_sheet entry)"
proof -
  have "list_all2 (\<lambda>row row'. row' = row \<or> repair_of row = Some row') rows (map repaired rows)"
    for rows
    by (induction rows) (auto simp: repaired_def split: option.splits)
  then show ?thesis
    by (auto simp: frame_sheet_def repaired_sheet_def list_all2_same)
qed

lemma sheets_loop_frame: "list_all2 frame_sheet ws (fst (sheets_loop ws))"
proof (induction ws)
  case Nil
  then show ?case by simp
next
  case (Cons entry ws)
  obtain sheet data where entry: "entry = (sheet, data)" by (cases entry)
  have here: "frame_sheet (sheet, data) (sheet, fst (validate_sheet sheet data))"
    using frame_sheet_repaired [of "(sheet, data)"]
    by (simp add: validate_sheet_fst repaired_sheet_def)
  have same: "list_all2 frame_sheet ws ws"
    by (simp add: list_all2_same frame_sheet_refl)
  show ?case
    using here same Cons.IH unfolding entry
    by (auto split: prod.splits sum.splits)
qed

lemma sheets_loop_complete:
  "snd (sheets_loop ws) = Inr errs \<Longrightarrow> fst (sheets_loop ws) = map repaired_sheet ws"
proof (induction ws arbitrary: errs)
  case Nil
  then show ?case by simp
next
  case (Cons entry ws)
  obtain sheet data where entry: "entry = (sheet, data)" by (cases entry)
  have here: "(sheet, fst (validate_sheet sheet data)) = repaired_sheet (sheet, data)"
    by (simp add: validate_sheet_fst repaired_sheet_def)
  show ?case
    using Cons here unfolding entry
    by (auto split: prod.splits sum.splits)
qed

lemma validateAllData_fst: "fst (validateAllData ws) = fst (sheets_loop ws)"
  by (auto simp: validateAllData_def Let_def split: prod.splits sum.splits)

lemma validateAllData_returns:
  "snd (validateAllData ws) = Inr result \<Longrightarrow> \<exists>errs. snd (sheets_loop ws) = Inr errs"
  by (auto simp: validateAllData_def Let_def split: prod.splits sum.splits)

lemma repair_of_same_but_attributes:
  assumes "repair_of row = Some row'"
  shows "same_but_attributes row row'"
proof -
  from assms obtain s where s: "get_prop row ''AttributesJSON'' = VStr s"
    and row': "row' = set_prop row ''AttributesJSON'' (VStr (stringify_message (trim s)))"
    by (auto simp: repair_of_def split: jsval.splits if_splits)
  from s have "map_of row ''AttributesJSON'' \<noteq> None"
    by (auto simp: get_prop_def split: option.splits)
  then show ?thesis
    unfolding same_but_attributes_def row'
    by (simp add: keys_set_prop get_prop_set_prop_other)
qed

text \<open>
  C8. Whatever the snapshot, and whether \<^verbatim>\<open>validateAllData\<close> returns or throws, the
  snapshot afterwards has the same sheets with the same number of rows, and every row is
  either exactly as it was or, in a client sheet, the row the auto-repair branch leaves.
  A repaired row has the keys it had and the same cell under every key but
  \<^verbatim>\<open>AttributesJSON\<close>. When \<^verbatim>\<open>validateAllData\<close> returns, every row of every client sheet
  that takes the auto-repair branch has been repaired.
\<close>

theorem only_attributes_written:
  "list_all2 frame_sheet ws (fst (validateAllData ws)) \<and>
   (repair_of row = Some row' \<longrightarrow>
      map fst row' = map fst row \<and>
      (\<forall>k. k \<noteq> ''AttributesJSON'' \<longrightarrow> get_prop row' k = get_prop row k)) \<and>
   (snd (validateAllData ws) = Inr result \<longrightarrow>
      fst (validateAllData ws) = map repaired_sheet ws)"
proof (intro conjI impI)
  show "list_all2 frame_sheet ws (fst (validateAllData ws))"
    by (simp add: validateAllData_fst sheets_loop_frame)
next
  assume "repair_of row = Some row'"
  then have "same_but_attributes row row'" by (rule repair_of_same_but_attributes)
  then show "map fst row' = map fst row"
    and "\<forall>k. k \<noteq> ''AttributesJSON'' \<longrightarrow> get_prop row' k = get_prop row k"
    by (simp_all add: same_but_attributes_def)
next
  assume "snd (validateAllData ws) = Inr result"
  then obtain errs where "snd (sheets_loop ws) = Inr errs"
    using validateAllData_returns by blast
  then show "fst (validateAllData ws) = map repaired_sheet ws"
    by (simp add: validateAllData_fst sheets_loop_complete)
qed

lemma vipSnapshot_result:
  "snd (validateAllData vipSnapshot) = Inr \<lparr>isValid = True, errors = []\<rparr>"
  by code_simp

lemma vipSnapshot_repaired:
  "map repaired_sheet vipSnapshot =
     [(''Clients 1'',
       [[(''ClientID'', VStr ''C001''), (''ClientName'', VStr ''Client A''),
         (''PriorityLevel'', VNum (Finite 3)), (''RequestedTaskIDs'', VStr ''T001,T002''),
         (''GroupTag'', VStr ''Group1''),
         (''AttributesJSON'', VStr ''{\"message\":\"vip customer\"}'')]])]"
  by code_simp

text \<open>A client sheet whose one row has the attributes \<^verbatim>\<open>vip customer\<close>: the run returns,
  and the only cell it has changed is that one.\<close>

theorem only_attributes_written_witness:
  "snd (validateAllData vipSnapshot) = Inr \<lparr>isValid = True, errors = []\<rparr> \<and>
   fst (validateAllData vipSnapshot) =
     [(''Clients 1'',
       [[(''ClientID'', VStr ''C001''), (''ClientName'', VStr ''Client A''),
         (''PriorityLevel'', VNum (Finite 3)), (''RequestedTaskIDs'', VStr ''T001,T002''),
         (''GroupTag'', VStr ''Group1''),
         (''AttributesJSON'', VStr ''{\"message\":\"vip customer\"}'')]])]"
proof -
  from only_attributes_written
         [of vipSnapshot undefined undefined "\<lparr>isValid = True, errors = []\<rparr>"]
       vipSnapshot_result
  have "fst (validateAllData vipSnapshot) = map repaired_sheet vipSnapshot"
    by blast
  then show ?thesis
    using vipSnapshot_result vipSnapshot_repaired by simp
qed

section \<open>Running the validation again\<close>

lemma stringify_message_nonempty: "stringify_message t \<noteq> []"
  by (simp add: stringify_message_def)

lemma repaired_same_but_attributes: "same_but_attributes row (repaired row)"
  using repair_of_same_but_attributes [of row]
  by (auto simp: repaired_def same_but_attributes_def split: option.splits)

lemma repaired_get_prop: "k \<noteq> ''AttributesJSON'' \<Longrightarrow> get_prop (repaired row) k = get_prop row k"
  using repaired_same_but_attributes [of row] by (simp add: same_but_attributes_def)

lemma repaired_keys: "map fst (repaired row) = map fst row"
  using repaired_same_but_attributes [of row] by (simp add: same_but_attributes_def)

text \<open>A repaired row passes the attribute check as it is, with the errors of the first
  time (none, if it was repaired).\<close>

lemma attributes_row_repaired:
  "attributes_row sheet (repaired row) i = (repaired row, snd (attributes_row sheet row i))"
proof (cases "repair_of row")
  case None
  then have "repaired row = row" by (simp add: repaired_def)
  then show ?thesis
    using attributes_row_fst [of sheet row i] by (simp add: prod_eq_iff)
next
  case (Some row')
  then obtain s where s: "get_prop row ''AttributesJSON'' = VStr s" "s \<noteq> []"
      "json_parse s = None" "simple_sentence (trim s)"
    and row': "row' = set_prop row ''AttributesJSON'' (VStr (stringify_message (trim s)))"
    by (auto simp: repair_of_def split: jsval.splits if_splits)
  have first: "snd (attributes_row sheet row i) = []"
    using s by (simp add: attributes_row_def Let_def)
  have again: "attributes_row sheet row' i = (row', [])"
    unfolding row'
    by (simp add: attributes_row_def get_prop_set_prop stringify_message_nonempty
                  json_parse_stringify_message)
  from Some have "repaired row = row'" by (simp add: repaired_def)
  with first again show ?thesis by simp
qed

lemma validateAttributesJSON_repaired:
  "validateAttributesJSON (map repaired data) sheet =
     (if getBaseSheetName sheet = ''Clients''
      then (map repaired data, snd (validateAttributesJSON data sheet))
      else (map repaired data, []))"
proof -
  have "map (\<lambda>(index, row). attributes_row sheet row index) (enumerate n (map repaired data)) =
        map (\<lambda>(index, row). (repaired row, snd (attributes_row sheet row index))) (enumerate n data)"
    for n
    by (induction data arbitrary: n) (simp_all add: attributes_row_repaired)
  moreover have "map (\<lambda>x. repaired (snd x)) (enumerate n data) = map repaired data" for n
    by (induction data arbitrary: n) simp_all
  ultimately show ?thesis
    by (simp add: validateAttributesJSON_def Let_def o_def case_prod_unfold)
qed

lemma validateRequiredColumns_repaired:
  "validateRequiredColumns sheet (map repaired data) = validateRequiredColumns sheet data"
  by (cases data)
     (simp_all add: validateRequiredColumns_def object_keys_def repaired_keys
               split: required_lookup.splits)

lemma duplicate_loop_repaired:
  "idc \<noteq> ''AttributesJSON'' \<Longrightarrow>
   duplicate_loop sheet idc seen i (map repaired data) = duplicate_loop sheet idc seen i data"
  by (induction data arbitrary: seen i) (simp_all add: repaired_get_prop)

lemma validateDuplicateIDs_repaired:
  "validateDuplicateIDs sheet (map repaired data) = validateDuplicateIDs sheet data"
proof (cases "id_column (getBaseSheetName sheet)")
  case None
  then show ?thesis by (simp add: validateDuplicateIDs_def)
next
  case (Some idc)
  then have "idc \<noteq> ''AttributesJSON''"
    by (auto simp: id_column_def split: if_splits)
  with Some show ?thesis by (simp add: validateDuplicateIDs_def duplicate_loop_repaired)
qed

lemma for_each_map:
  "for_each body (map f data) = for_each (\<lambda>row index. body (f row) index) data"
proof -
  have "map (\<lambda>(index, row). body row index) (enumerate n (map f data)) =
        map (\<lambda>(index, row). body (f row) index) (enumerate n data)" for n
    by (induction data arbitrary: n) simp_all
  then show ?thesis by (simp add: for_each_def)
qed

lemma validatePriorityLevel_repaired:
  "validatePriorityLevel (map repaired data) sheet = validatePriorityLevel data sheet"
proof -
  have "get_prop (repaired row) ''PriorityLevel'' = get_prop row ''PriorityLevel''" for row
    by (simp add: repaired_get_prop)
  then show ?thesis
    by (simp add: validatePriorityLevel_def for_each_map cong: if_cong)
qed

lemma repaired_idem: "repaired (repaired row) = repaired row"
  using attributes_row_repaired [of undefined row 0] attributes_row_fst [of undefined "repaired row" 0]
  by simp

lemma validate_sheet_again:
  "validate_sheet sheet (fst (validate_sheet sheet data)) = validate_sheet sheet data"
proof (cases "getBaseSheetName sheet = ''Clients''")
  case True
  have fst_eq: "fst (validate_sheet sheet data) = map repaired data"
    using True by (simp add: validate_sheet_fst repaired_sheet_def)
  obtain errs where errs: "validateRequiredColumns sheet data = Inr errs"
    using True validateRequiredColumns_Clients by blast
  show ?thesis
    unfolding fst_eq
    using True errs
    by (simp add: validate_sheet_def Let_def validateRequiredColumns_repaired
                  validateDuplicateIDs_repaired validatePriorityLevel_repaired
                  validateAttributesJSON_repaired validateAttributesJSON_fst)
next
  case False
  then have "fst (validate_sheet sheet data) = data"
    by (simp add: validate_sheet_fst repaired_sheet_def)
  then show ?thesis by simp
qed

lemma sheets_loop_again: "sheets_loop (fst (sheets_loop ws)) = sheets_loop ws"
proof (induction ws)
  case Nil
  then show ?case by simp
next
  case (Cons entry ws)
  obtain sheet data where entry: "entry = (sheet, data)" by (cases entry)
  obtain data' r where vs: "validate_sheet sheet data = (data', r)"
    by (cases "validate_sheet sheet data")
  then have again: "validate_sheet sheet data' = (data', r)"
    using validate_sheet_again [of sheet data] by simp
  show ?case
  proof (cases r)
    case (Inl e)
    with vs again show ?thesis unfolding entry by simp
  next
    case (Inr errs)
    obtain rest' r' where sl: "sheets_loop ws = (rest', r')"
      by (cases "sheets_loop ws")
    with Cons.IH have sl': "sheets_loop rest' = (rest', r')" by simp
    from vs again Inr sl sl' show ?thesis
      unfolding entry by (cases r') simp_all
  qed
qed

lemma validateAllData_again: "validateAllData (fst (validateAllData ws)) = validateAllData ws"
proof -
  have "validateAllData (fst (sheets_loop ws)) = validateAllData ws"
    by (simp add: validateAllData_def sheets_loop_again)
  then show ?thesis by (simp add: validateAllData_fst)
qed

text \<open>
  C7. A second run of \<^verbatim>\<open>validateAllData\<close>, on the snapshot as the first run left it,
  returns the same result as the first (the same errors in the same order, or the same
  exception) and leaves the snapshot as it found it.
\<close>

theorem validation_idempotent:
  "snd (validateAllData (fst (validateAllData ws))) = snd (validateAllData ws) \<and>
   fst (validateAllData (fst (validateAllData ws))) = fst (validateAllData ws)"
  by (simp add: validateAllData_again)

lemma testData_result_errors:
  "map (\<lambda>e. (rowIndex e, column e))
     (case snd (validateAllData testData) of Inr result \<Rightarrow> errors result | Inl e \<Rightarrow> []) =
   [(2, ''ClientID''), (1, ''RequestedTaskIDs''), (2, ''RequestedTaskIDs''),
    (0, ''MaxConcurrent''), (- 1, ''PreferredPhases''), (- 1, ''PreferredPhases'')]"
  by code_simp

text \<open>The data of the duplicate-ID test, validated twice: the second run reports the six
  errors of the first.\<close>

theorem validation_idempotent_witness:
  "map (\<lambda>e. (rowIndex e, column e))
     (case snd (validateAllData (fst (validateAllData testData))) of
        Inr result \<Rightarrow> errors result | Inl e \<Rightarrow> []) =
   [(2, ''ClientID''), (1, ''RequestedTaskIDs''), (2, ''RequestedTaskIDs''),
    (0, ''MaxConcurrent''), (- 1, ''PreferredPhases''), (- 1, ''PreferredPhases'')]"
  using validation_idempotent [of testData] testData_result_errors by simp


section \<open>Valid snapshots have no errors\<close>







































end
